theory Spec2Isabelle
  imports Main "HOL-Library.AList" "HOL-Library.Word"
begin

section \<open>Go values: errors, durations, strings\<close>

text \<open>
  An error of the operating system is an errno; \<open>os.IsNotExist\<close> recognises \<open>ENOENT\<close>.
  The package \<open>github.com/pkg/errors\<close> builds errors from a cause and a message
  (\<open>Wrap\<close>, \<open>Wrapf\<close>) or from a message alone (\<open>Errorf\<close>).  Format strings are kept
  as the source writes them, next to their arguments.  Go's \<open>nil\<close> error is \<open>None\<close>.
\<close>

datatype errno = ENOENT | EEXIST | EACCES | EIO | ENOSPC

datatype error =
    OsErr errno
  | Wrap error string
  | Wrapf error string "string list"
  | Errorf string "string list"

definition os_IsNotExist :: "error \<Rightarrow> bool" where
  "os_IsNotExist err = (err = OsErr ENOENT)"

text \<open>\<open>errors.Wrap\<close> returns \<open>nil\<close> when the cause is \<open>nil\<close>.\<close>

definition errors_Wrap :: "error option \<Rightarrow> string \<Rightarrow> error option" where
  "errors_Wrap err msg = (case err of None \<Rightarrow> None | Some e \<Rightarrow> Some (Wrap e msg))"

text \<open>The identifiers an error message is built from.\<close>

fun error_args :: "error \<Rightarrow> string list" where
  "error_args (OsErr e) = []"
| "error_args (Wrap e msg) = error_args e"
| "error_args (Wrapf e fmt args) = args @ error_args e"
| "error_args (Errorf fmt args) = args"

text \<open>The error at the bottom of a chain of wraps (\<open>errors.Cause\<close>).\<close>

fun errors_Cause :: "error \<Rightarrow> error" where
  "errors_Cause (Wrap e msg) = errors_Cause e"
| "errors_Cause (Wrapf e fmt args) = errors_Cause e"
| "errors_Cause e = e"

text \<open>
  \<open>time.Duration\<close> is a signed 64-bit count of nanoseconds, \<open>time.Time\<close> an instant, here
  in nanoseconds too.  \<open>Time.Sub\<close> saturates at the ends of the range of durations.
\<close>

type_synonym duration = int
type_synonym time = int

definition Millisecond :: duration where "Millisecond = 1000000"
definition Second :: duration where "Second = 1000 * Millisecond"
definition Hour :: duration where "Hour = 3600 * Second"

definition maxDuration :: duration where "maxDuration = 2 ^ 63 - 1"
definition minDuration :: duration where "minDuration = - (2 ^ 63)"

definition time_Sub :: "time \<Rightarrow> time \<Rightarrow> duration" where
  "time_Sub t u =
     (let d = t - u
      in if d > maxDuration then maxDuration else if d < minDuration then minDuration else d)"

text \<open>Arithmetic on durations wraps around at 64 bits.\<close>

definition int64 :: "int \<Rightarrow> int" where
  "int64 x = (x + 2 ^ 63) mod 2 ^ 64 - 2 ^ 63"

definition strings_HasSuffix :: "string \<Rightarrow> string \<Rightarrow> bool" where
  "strings_HasSuffix s suffix =
     (length s \<ge> length suffix \<and> drop (length s - length suffix) s = suffix)"

definition strings_TrimSuffix :: "string \<Rightarrow> string \<Rightarrow> string" where
  "strings_TrimSuffix s suffix =
     (if strings_HasSuffix s suffix then take (length s - length suffix) s else s)"

section \<open>The operating system\<close>

text \<open>
  A path is a directory and the name of an entry in it, which is what
  \<open>filepath.Join\<close> and the operating system make of a directory and a plain file
  name (\<open>plain_dir\<close> and \<open>plain_name\<close> below say which these are).  A
  directory is a list of named files, in the order of creation, each with its bytes and
  its modification time.  A directory that does not exist is \<open>None\<close>.
\<close>

type_synonym bytes = "8 word list"
type_synonym path = "string \<times> string"

definition filepath_Join :: "string \<Rightarrow> string \<Rightarrow> path" where
  "filepath_Join d n = (d, n)"

record inode =
  content :: bytes
  modtime :: time

type_synonym listing = "(string \<times> inode) list"
type_synonym filesystem = "string \<Rightarrow> listing option"

definition lookup :: "path \<Rightarrow> filesystem \<Rightarrow> inode option" where
  "lookup p m = (case m (fst p) of None \<Rightarrow> None | Some ents \<Rightarrow> map_of ents (snd p))"

definition put_file :: "path \<Rightarrow> inode \<Rightarrow> filesystem \<Rightarrow> filesystem" where
  "put_file p f m =
     (case m (fst p) of None \<Rightarrow> m | Some ents \<Rightarrow> m(fst p \<mapsto> AList.update (snd p) f ents))"

definition del_file :: "path \<Rightarrow> filesystem \<Rightarrow> filesystem" where
  "del_file p m =
     (case m (fst p) of None \<Rightarrow> m | Some ents \<Rightarrow> m(fst p \<mapsto> AList.delete (snd p) ents))"

text \<open>
  Other processes share the directory.  What one of them does between two system calls
  of this process is a \<open>racer\<close>: it publishes a file (creating the directory when it is
  missing, as this code does) or unlinks one.
\<close>

datatype racer = Publish path bytes | Unlink path

fun race :: "time \<Rightarrow> filesystem \<Rightarrow> racer \<Rightarrow> filesystem" where
  "race t m (Publish p b) =
     m(fst p \<mapsto> AList.update (snd p) \<lparr>content = b, modtime = t\<rparr>
                  (case m (fst p) of None \<Rightarrow> [] | Some ents \<Rightarrow> ents))"
| "race t m (Unlink p) = del_file p m"

text \<open>
  Every system call and every log line is recorded, a system call with the errno it
  returned (\<open>None\<close> for success).
\<close>

datatype syscall =
    Stat path
  | CreateTemp string string
  | MkdirAll string
  | Write path bytes
  | Close path
  | Rename path path
  | Remove path
  | ReadDir string
  | MmapOpen path

datatype logarg = AStr string | AStrs "string list" | ANat nat | ATime time | AErr error

datatype event =
    Sys syscall "errno option"
  | Sleep duration
  | LogDebugf string "logarg list"
  | LogErrorf string "logarg list"

text \<open>
  The world: the file system, the clock of the operating system, the source of the
  random part of temporary names, what is still to happen around this process
  (\<open>script\<close>) and what has happened (\<open>trace\<close>).  Each system call takes the next entry
  of the script: the racers that run before it, and the errno it fails with, if any.
  With the script used up, nothing interferes and nothing fails.
\<close>

record world =
  fs :: filesystem
  clock :: time
  rand :: nat
  script :: "(racer list \<times> errno option) list"
  trace :: "event list"

definition env_step :: "world \<Rightarrow> errno option \<times> world" where
  "env_step w =
     (case script w of
        [] \<Rightarrow> (None, w)
      | (rs, flt) # rest \<Rightarrow> (flt, w\<lparr>fs := foldl (race (clock w)) (fs w) rs, script := rest\<rparr>))"

definition emit :: "event \<Rightarrow> world \<Rightarrow> world" where
  "emit e w = w\<lparr>trace := trace w @ [e]\<rparr>"

definition os_Stat :: "path \<Rightarrow> world \<Rightarrow> error option \<times> world" where
  "os_Stat p w =
     (let (flt, w1) = env_step w;
          r = (case flt of
                 Some e \<Rightarrow> Some e
               | None \<Rightarrow> (case lookup p (fs w1) of None \<Rightarrow> Some ENOENT | Some f \<Rightarrow> None))
      in (map_option OsErr r, emit (Sys (Stat p) r) w1))"

text \<open>Decimal digits of the random part of a temporary name.\<close>

definition digit_char :: "nat \<Rightarrow> char" where
  "digit_char n = ''0123456789'' ! n"

function show_nat :: "nat \<Rightarrow> string" where
  "show_nat n = (if n < 10 then [digit_char n] else show_nat (n div 10) @ [digit_char (n mod 10)])"
  by pat_completeness auto
termination
  by (relation "measure id") auto

declare show_nat.simps [simp del]

text \<open>
  \<open>os.CreateTemp\<close> opens a new file exclusively under the pattern followed by a random
  number, and tries another number when the name is taken, 10000 names at most.
\<close>

function create_temp_try :: "string \<Rightarrow> string \<Rightarrow> nat \<Rightarrow> world \<Rightarrow> (errno + string) \<times> world" where
  "create_temp_try d pattern tries w =
     (let name = pattern @ show_nat (rand w);
          w1 = w\<lparr>rand := Suc (rand w)\<rparr>
      in case fs w d of
           None \<Rightarrow> (Inl ENOENT, w1)
         | Some ents \<Rightarrow>
             (case map_of ents name of
                Some f \<Rightarrow>
                  if Suc tries < 10000 then create_temp_try d pattern (Suc tries) w1
                  else (Inl EEXIST, w1)
              | None \<Rightarrow>
                  (Inr name,
                   w1\<lparr>fs := (fs w)(d \<mapsto> ents @ [(name, \<lparr>content = [], modtime = clock w\<rparr>)])\<rparr>)))"
  by pat_completeness auto
termination
  by (relation "measure (\<lambda>(d, pattern, tries, w). 10000 - tries)") auto

declare create_temp_try.simps [simp del]

definition os_CreateTemp :: "string \<Rightarrow> string \<Rightarrow> world \<Rightarrow> (error + path) \<times> world" where
  "os_CreateTemp d pattern w =
     (let (flt, w1) = env_step w
      in case flt of
           Some e \<Rightarrow> (Inl (OsErr e), emit (Sys (CreateTemp d pattern) (Some e)) w1)
         | None \<Rightarrow>
             (case create_temp_try d pattern 0 w1 of
                (Inl e, w2) \<Rightarrow> (Inl (OsErr e), emit (Sys (CreateTemp d pattern) (Some e)) w2)
              | (Inr name, w2) \<Rightarrow>
                  (Inr (filepath_Join d name), emit (Sys (CreateTemp d pattern) None) w2)))"

definition os_MkdirAll :: "string \<Rightarrow> world \<Rightarrow> error option \<times> world" where
  "os_MkdirAll d w =
     (let (flt, w1) = env_step w;
          w2 = (case flt of
                  Some e \<Rightarrow> w1
                | None \<Rightarrow> (case fs w1 d of None \<Rightarrow> w1\<lparr>fs := (fs w1)(d \<mapsto> [])\<rparr> | Some ents \<Rightarrow> w1))
      in (map_option OsErr flt, emit (Sys (MkdirAll d) flt) w2))"

text \<open>
  A write appends to the file and sets its modification time; a failed write leaves the
  file as it is.  The file may have been unlinked meanwhile: then the write succeeds
  and shows nowhere.
\<close>

definition file_Write :: "path \<Rightarrow> bytes \<Rightarrow> world \<Rightarrow> error option \<times> world" where
  "file_Write p b w =
     (let (flt, w1) = env_step w;
          w2 = (case flt of
                  Some e \<Rightarrow> w1
                | None \<Rightarrow>
                    (case lookup p (fs w1) of
                       None \<Rightarrow> w1
                     | Some f \<Rightarrow>
                         w1\<lparr>fs := put_file p \<lparr>content = content f @ b, modtime = clock w1\<rparr> (fs w1)\<rparr>))
      in (map_option OsErr flt, emit (Sys (Write p b) flt) w2))"

definition file_Close :: "path \<Rightarrow> world \<Rightarrow> error option \<times> world" where
  "file_Close p w =
     (let (flt, w1) = env_step w
      in (map_option OsErr flt, emit (Sys (Close p) flt) w1))"

definition os_Rename :: "path \<Rightarrow> path \<Rightarrow> world \<Rightarrow> error option \<times> world" where
  "os_Rename src dst w =
     (let (flt, w1) = env_step w
      in case flt of
           Some e \<Rightarrow> (Some (OsErr e), emit (Sys (Rename src dst) (Some e)) w1)
         | None \<Rightarrow>
             (case (lookup src (fs w1), fs w1 (fst dst)) of
                (Some f, Some ents) \<Rightarrow>
                  (None, emit (Sys (Rename src dst) None)
                           (w1\<lparr>fs := put_file dst f (del_file src (fs w1))\<rparr>))
              | _ \<Rightarrow> (Some (OsErr ENOENT), emit (Sys (Rename src dst) (Some ENOENT)) w1)))"

definition os_Remove :: "path \<Rightarrow> world \<Rightarrow> error option \<times> world" where
  "os_Remove p w =
     (let (flt, w1) = env_step w
      in case flt of
           Some e \<Rightarrow> (Some (OsErr e), emit (Sys (Remove p) (Some e)) w1)
         | None \<Rightarrow>
             (case lookup p (fs w1) of
                None \<Rightarrow> (Some (OsErr ENOENT), emit (Sys (Remove p) (Some ENOENT)) w1)
              | Some f \<Rightarrow> (None, emit (Sys (Remove p) None) (w1\<lparr>fs := del_file p (fs w1)\<rparr>))))"

record fileinfo =
  Name :: string
  ModTime :: time

definition ioutil_ReadDir :: "string \<Rightarrow> world \<Rightarrow> (error + fileinfo list) \<times> world" where
  "ioutil_ReadDir d w =
     (let (flt, w1) = env_step w
      in case flt of
           Some e \<Rightarrow> (Inl (OsErr e), emit (Sys (ReadDir d) (Some e)) w1)
         | None \<Rightarrow>
             (case fs w1 d of
                None \<Rightarrow> (Inl (OsErr ENOENT), emit (Sys (ReadDir d) (Some ENOENT)) w1)
              | Some ents \<Rightarrow>
                  (Inr (map (\<lambda>(n, f). \<lparr>Name = n, ModTime = modtime f\<rparr>) ents),
                   emit (Sys (ReadDir d) None) w1)))"

text \<open>
  A mapped file is its bytes.  \<open>mmap.Open\<close> returns a reader and no error, or no
  reader and an error.
\<close>

type_synonym mmap_ReaderAt = bytes

definition mmap_Open :: "path \<Rightarrow> world \<Rightarrow> (mmap_ReaderAt option \<times> error option) \<times> world" where
  "mmap_Open p w =
     (let (flt, w1) = env_step w
      in case flt of
           Some e \<Rightarrow> ((None, Some (OsErr e)), emit (Sys (MmapOpen p) (Some e)) w1)
         | None \<Rightarrow>
             (case lookup p (fs w1) of
                None \<Rightarrow> ((None, Some (OsErr ENOENT)), emit (Sys (MmapOpen p) (Some ENOENT)) w1)
              | Some f \<Rightarrow> ((Some (content f), None), emit (Sys (MmapOpen p) None) w1)))"

text \<open>\<open>time.Sleep\<close> returns at once for a duration that is not positive.\<close>

definition time_Sleep :: "duration \<Rightarrow> world \<Rightarrow> world" where
  "time_Sleep d w = emit (Sleep d) (w\<lparr>clock := clock w + (if d > 0 then d else 0)\<rparr>)"

definition log_Debugf :: "string \<Rightarrow> logarg list \<Rightarrow> world \<Rightarrow> world" where
  "log_Debugf fmt args w = emit (LogDebugf fmt args) w"

definition log_Errorf :: "string \<Rightarrow> logarg list \<Rightarrow> world \<Rightarrow> world" where
  "log_Errorf fmt args w = emit (LogErrorf fmt args) w"

section \<open>The committed content index cache on disk\<close>

definition simpleIndexSuffix :: string where
  "simpleIndexSuffix = ''.sndx''"

definition unusedCommittedContentIndexCleanupTime :: duration where
  "unusedCommittedContentIndexCleanupTime = 1 * Hour"

text \<open>
  The logger of the structure is the trace of the world.  The injected time source
  reads the world it is called in.
\<close>

record diskCommittedContentIndexCache =
  dirname :: string
  timeNow :: "world \<Rightarrow> time"
  v1PerContentOverhead :: "32 word"

definition indexBlobPath :: "diskCommittedContentIndexCache \<Rightarrow> string \<Rightarrow> path" where
  "indexBlobPath c indexBlobID = filepath_Join (dirname c) (indexBlobID @ simpleIndexSuffix)"

definition hasIndexBlobID ::
  "diskCommittedContentIndexCache \<Rightarrow> string \<Rightarrow> world \<Rightarrow> (error + bool) \<times> world" where
  "hasIndexBlobID c indexBlobID w =
     (let (err, w1) = os_Stat (indexBlobPath c indexBlobID) w
      in case err of
           None \<Rightarrow> (Inr True, w1)
         | Some e \<Rightarrow>
             if os_IsNotExist e then (Inr False, w1)
             else (Inl (Wrapf e ''error checking %v'' [indexBlobID]), w1))"

definition writeTempFileAtomic :: "string \<Rightarrow> bytes \<Rightarrow> world \<Rightarrow> (error + path) \<times> world" where
  "writeTempFileAtomic dirname' data w =
     (let (r, w1) = os_CreateTemp dirname' ''tmp'' w;
          (r, w2) = (case r of
                       Inl err \<Rightarrow>
                         if os_IsNotExist err
                         then (let (_, w') = os_MkdirAll dirname' w1
                               in os_CreateTemp dirname' ''tmp'' w')
                         else (r, w1)
                     | Inr tf \<Rightarrow> (r, w1))
      in case r of
           Inl err \<Rightarrow> (Inl (Wrap err ''can't create tmp file''), w2)
         | Inr tf \<Rightarrow>
             (let (err, w3) = file_Write tf data w2
              in case err of
                   Some e \<Rightarrow> (Inl (Wrap e ''can't write to temp file''), w3)
                 | None \<Rightarrow>
                     (let (err, w4) = file_Close tf w3
                      in case err of
                           Some e \<Rightarrow> (Inl (Errorf ''can't close tmp file'' []), w4)
                         | None \<Rightarrow> (Inr tf, w4))))"

definition addContentToCache ::
  "diskCommittedContentIndexCache \<Rightarrow> string \<Rightarrow> bytes \<Rightarrow> world \<Rightarrow> error option \<times> world" where
  "addContentToCache c indexBlobID data w =
     (let (r, w1) = hasIndexBlobID c indexBlobID w
      in case r of
           Inl err \<Rightarrow> (Some err, w1)
         | Inr exists \<Rightarrow>
             if exists then (None, w1)
             else
               (let (r, w2) = writeTempFileAtomic (dirname c) data w1
                in case r of
                     Inl err \<Rightarrow> (Some err, w2)
                   | Inr tmpFile \<Rightarrow>
                       (let (err, w3) = os_Rename tmpFile (indexBlobPath c indexBlobID) w2
                        in case err of
                             None \<Rightarrow> (None, w3)
                           | Some e \<Rightarrow>
                               (let (r, w4) = hasIndexBlobID c indexBlobID w3
                                in case r of
                                     Inl err \<Rightarrow> (Some err, w4)
                                   | Inr exists \<Rightarrow>
                                       if \<not> exists
                                       then (Some (Errorf ''unsuccessful index write of content %q''
                                                     [indexBlobID]), w4)
                                       else (None, w4)))))"

text \<open>
  \<open>mmapOpenWithRetry\<close>: the loop \<open>for err != nil && retryCount < maxRetries\<close>, with
  the variables \<open>f\<close>, \<open>err\<close>, \<open>nextDelay\<close> and \<open>retryCount\<close> it updates.
\<close>

definition maxRetries :: nat where
  "maxRetries = 8"

definition startingDelay :: duration where
  "startingDelay = 10 * Millisecond"

function mmap_retry_loop ::
  "path \<Rightarrow> mmap_ReaderAt option \<times> error option \<Rightarrow> duration \<Rightarrow> nat \<Rightarrow> world
     \<Rightarrow> (mmap_ReaderAt option \<times> error option) \<times> world" where
  "mmap_retry_loop path r nextDelay retryCount w =
     (case snd r of
        None \<Rightarrow> (r, w)
      | Some err \<Rightarrow>
          if retryCount < maxRetries
          then (let retryCount = retryCount + 1;
                    w1 = log_Debugf ''retry #%v unable to mmap.Open(): %v''
                           [ANat retryCount, AErr err] w;
                    w2 = time_Sleep nextDelay w1;
                    nextDelay = int64 (nextDelay * 2);
                    (r, w3) = mmap_Open path w2
                in mmap_retry_loop path r nextDelay retryCount w3)
          else (r, w))"
  by pat_completeness auto
termination
  by (relation "measure (\<lambda>(path, r, nextDelay, retryCount, w). maxRetries - retryCount)") auto

declare mmap_retry_loop.simps [simp del]

definition mmapOpenWithRetry ::
  "diskCommittedContentIndexCache \<Rightarrow> path \<Rightarrow> world
     \<Rightarrow> (mmap_ReaderAt option \<times> error option) \<times> world" where
  "mmapOpenWithRetry c path w =
     (let (r, w1) = mmap_Open path w;
          ((f, err), w2) = mmap_retry_loop path r startingDelay 0 w1
      in ((f, errors_Wrap err ''mmap() error''), w2))"

text \<open>
  \<open>expireUnused\<close>.  The Go map \<open>remaining\<close> is an association list; the last loop
  visits its values in the order of the list (Go leaves the order open).
\<close>

fun collect_remaining :: "fileinfo list \<Rightarrow> (string \<times> fileinfo) list \<Rightarrow> (string \<times> fileinfo) list" where
  "collect_remaining [] remaining = remaining"
| "collect_remaining (ent # entries) remaining =
     collect_remaining entries
       (if strings_HasSuffix (Name ent) simpleIndexSuffix
        then (let n = strings_TrimSuffix (Name ent) simpleIndexSuffix
              in AList.update n ent remaining)
        else remaining)"

fun delete_used :: "string list \<Rightarrow> (string \<times> fileinfo) list \<Rightarrow> (string \<times> fileinfo) list" where
  "delete_used [] remaining = remaining"
| "delete_used (u # used) remaining = delete_used used (AList.delete u remaining)"

fun expire_remaining :: "diskCommittedContentIndexCache \<Rightarrow> fileinfo list \<Rightarrow> world \<Rightarrow> world" where
  "expire_remaining c [] w = w"
| "expire_remaining c (rem # rems) w =
     expire_remaining c rems
       (if time_Sub (timeNow c w) (ModTime rem) > unusedCommittedContentIndexCleanupTime
        then (let w1 = log_Debugf ''removing unused %v %v'' [AStr (Name rem), ATime (ModTime rem)] w;
                  (err, w2) = os_Remove (filepath_Join (dirname c) (Name rem)) w1
              in case err of
                   Some e \<Rightarrow> log_Errorf ''unable to remove unused index file: %v'' [AErr e] w2
                 | None \<Rightarrow> w2)
        else log_Debugf ''keeping unused %v because it's too new %v''
               [AStr (Name rem), ATime (ModTime rem)] w)"

definition expireUnused ::
  "diskCommittedContentIndexCache \<Rightarrow> string list \<Rightarrow> world \<Rightarrow> error option \<times> world" where
  "expireUnused c used w =
     (let w0 = log_Debugf ''expireUnused (except %v)'' [AStrs used] w;
          (r, w1) = ioutil_ReadDir (dirname c) w0
      in case r of
           Inl err \<Rightarrow> (Some (Wrap err ''can't list cache''), w1)
         | Inr entries \<Rightarrow>
             (let remaining = collect_remaining entries [];
                  remaining = delete_used used remaining
              in (None, expire_remaining c (map snd remaining) w1)))"

section \<open>Construction of the block cache\<close>

text \<open>
  \<open>newBlockCache\<close> of package \<open>block\<close>.  The storage is opaque.  The method
  \<open>sweepDirectory\<close> of the disk cache is a parameter: a change of the state of the
  process.  A \<open>go\<close> statement adds a task to the running ones.
\<close>

record CachingOptions =
  CacheDirectory :: string
  MaxCacheSizeBytes :: "64 word"
  MaxListCacheDurationSec :: "64 word"
  HMACSecret :: bytes

record 'st diskBlockCache =
  st :: 'st
  directory :: string
  maxSizeBytes :: "64 word"
  hmacSecret :: bytes
  listCacheDuration :: "64 word"
  closed :: bool

datatype 'st blockCache = NullBlockCache 'st | DiskBlockCache "'st diskBlockCache"

datatype 'st task = SweepDirectoryPeriodically "'st diskBlockCache"

record ('st, 'd) process =
  disk :: 'd
  tasks :: "'st task list"

definition go :: "'st task \<Rightarrow> ('st, 'd) process \<Rightarrow> ('st, 'd) process" where
  "go t p = p\<lparr>tasks := tasks p @ [t]\<rparr>"

definition time_Second :: "64 word" where
  "time_Second = 1000000000"

definition newBlockCache ::
  "('st diskBlockCache \<Rightarrow> ('st, 'd) process \<Rightarrow> ('st, 'd) process) \<Rightarrow> 'st \<Rightarrow> CachingOptions
     \<Rightarrow> ('st, 'd) process \<Rightarrow> 'st blockCache \<times> ('st, 'd) process" where
  "newBlockCache sweepDirectory st' caching p =
     (if MaxCacheSizeBytes caching = 0 \<or> CacheDirectory caching = ''''
      then (NullBlockCache st', p)
      else (let c = \<lparr>st = st',
                      directory = CacheDirectory caching,
                      maxSizeBytes = MaxCacheSizeBytes caching,
                      hmacSecret = [] @ HMACSecret caching,
                      listCacheDuration = MaxListCacheDurationSec caching * time_Second,
                      closed = False\<rparr>;
                p1 = sweepDirectory c p;
                p2 = go (SweepDirectoryPeriodically c) p1
            in (DiskBlockCache c, p2)))"

section \<open>Notions the properties are stated with\<close>

text \<open>Nothing interferes with the next system call, and it is not made to fail.\<close>

definition calm :: "world \<Rightarrow> bool" where
  "calm w = (case script w of [] \<Rightarrow> True | (rs, flt) # rest \<Rightarrow> rs = [] \<and> flt = None)"

text \<open>The outcomes of the calls of \<open>os.CreateTemp\<close> in a trace.\<close>

fun create_temp_calls :: "event list \<Rightarrow> errno option list" where
  "create_temp_calls [] = []"
| "create_temp_calls (Sys (CreateTemp d pattern) r # evs) = r # create_temp_calls evs"
| "create_temp_calls (e # evs) = create_temp_calls evs"

text \<open>The outcomes of the calls of \<open>mmap.Open\<close> and the sleeps in a trace.\<close>

fun mmap_open_calls :: "event list \<Rightarrow> errno option list" where
  "mmap_open_calls [] = []"
| "mmap_open_calls (Sys (MmapOpen p) r # evs) = r # mmap_open_calls evs"
| "mmap_open_calls (e # evs) = mmap_open_calls evs"

fun sleep_calls :: "event list \<Rightarrow> duration list" where
  "sleep_calls [] = []"
| "sleep_calls (Sleep d # evs) = d # sleep_calls evs"
| "sleep_calls (e # evs) = sleep_calls evs"

text \<open>
  A name is a candidate of \<open>expireUnused\<close> when it has the suffix of committed
  indexes and the identifier before the suffix is not in the used set.
\<close>

definition candidate :: "string list \<Rightarrow> string \<Rightarrow> bool" where
  "candidate used n =
     (strings_HasSuffix n simpleIndexSuffix \<and> strings_TrimSuffix n simpleIndexSuffix \<notin> set used)"

text \<open>
  The calls of \<open>os.Remove\<close> in a trace with their outcomes, the lines of the error
  log, and the names in the debug lines that \<open>expireUnused\<close> writes for each file it
  looks at.  A world has no racers when no other process acts during the calls to
  come (calls may still fail).  A modification time is old enough when it is more
  than an hour before now.
\<close>

fun remove_calls :: "event list \<Rightarrow> (path \<times> errno option) list" where
  "remove_calls [] = []"
| "remove_calls (Sys (Remove p) r # evs) = (p, r) # remove_calls evs"
| "remove_calls (e # evs) = remove_calls evs"

fun error_logs :: "event list \<Rightarrow> (string \<times> logarg list) list" where
  "error_logs [] = []"
| "error_logs (LogErrorf fmt args # evs) = (fmt, args) # error_logs evs"
| "error_logs (e # evs) = error_logs evs"

fun visits :: "event list \<Rightarrow> string list" where
  "visits [] = []"
| "visits (LogDebugf fmt [AStr n, ATime t] # evs) = n # visits evs"
| "visits (e # evs) = visits evs"

definition no_racers :: "world \<Rightarrow> bool" where
  "no_racers w = list_all (\<lambda>(rs, flt). rs = []) (script w)"

definition old_enough :: "time \<Rightarrow> time \<Rightarrow> bool" where
  "old_enough now t = (now - t > 3600 * 1000000000)"

text \<open>
  The pair is exact for a plain file name in a plain directory.  A plain name is not
  empty, is not \<open>.\<close> or \<open>..\<close>, has no separator and no NUL byte, and is no longer than
  the longest name the operating system takes (\<open>NAME_MAX\<close>, 255 bytes on Linux).  A
  plain directory is not empty (with an empty directory \<open>os.CreateTemp\<close> writes to the
  default directory for temporary files, and \<open>filepath.Join\<close> names a file of the
  working directory), has no NUL byte and no element \<open>..\<close>, has elements of at most
  \<open>NAME_MAX\<close> bytes, and leaves room for a name within the longest path (\<open>PATH_MAX\<close>,
  4096 bytes on Linux).  For other names \<open>filepath.Join\<close> cleans the joined path, and
  the operating system resolves it through other directories or refuses it with an
  error such as \<open>ENOENT\<close> or \<open>ENAMETOOLONG\<close>; the pair does not say which, so a
  property that needs the calls on the path of an identifier to go through is stated
  for plain names.
\<close>

definition NAME_MAX :: nat where
  "NAME_MAX = 255"

definition PATH_MAX :: nat where
  "PATH_MAX = 4096"

fun path_elems :: "string \<Rightarrow> string list" where
  "path_elems [] = [[]]"
| "path_elems (x # xs) =
     (if x = CHR ''/'' then [] # path_elems xs
      else (case path_elems xs of [] \<Rightarrow> [[x]] | e # es \<Rightarrow> (x # e) # es))"

definition plain_name :: "string \<Rightarrow> bool" where
  "plain_name n =
     (n \<noteq> [] \<and> n \<noteq> ''.'' \<and> n \<noteq> ''..'' \<and> CHR ''/'' \<notin> set n \<and> CHR 0x00 \<notin> set n
      \<and> length n \<le> NAME_MAX)"

definition plain_dir :: "string \<Rightarrow> bool" where
  "plain_dir d =
     (d \<noteq> [] \<and> CHR 0x00 \<notin> set d \<and> length d + 1 + NAME_MAX < PATH_MAX
      \<and> list_all (\<lambda>e. e \<noteq> ''..'' \<and> length e \<le> NAME_MAX) (path_elems d))"

section \<open>Facts about the operating system\<close>

lemma lookup_put_file:
  "m (fst p) \<noteq> None \<Longrightarrow> lookup q (put_file p f m) = (if q = p then Some f else lookup q m)"
  by (cases p; cases q) (auto simp: lookup_def put_file_def update_conv' split: option.splits)

lemma lookup_del_file:
  "lookup q (del_file p m) = (if q = p then None else lookup q m)"
  by (cases p; cases q) (auto simp: lookup_def del_file_def delete_conv' split: option.splits)

lemma del_file_dir: "del_file p m d = None \<longleftrightarrow> m d = None"
  by (auto simp: del_file_def split: option.splits)

lemma env_step_calm: "calm w \<Longrightarrow> fst (env_step w) = None \<and> fs (snd (env_step w)) = fs w"
  by (auto simp: calm_def env_step_def split: list.splits)

lemma trace_env_step: "trace (snd (env_step w)) = trace w"
  by (simp add: env_step_def split: list.splits prod.splits)

lemma os_Rename_None_lookup:
  "os_Rename src dst w = (None, w1) \<Longrightarrow> lookup dst (fs w1) \<noteq> None"
  by (auto simp: os_Rename_def emit_def Let_def lookup_put_file del_file_dir
      split: prod.splits option.splits if_splits)

section \<open>The existence check\<close>

lemma hasIndexBlobID_fst:
  "fst (hasIndexBlobID c i w) =
     (case fst (env_step w) of
        None \<Rightarrow> Inr (lookup (indexBlobPath c i) (fs (snd (env_step w))) \<noteq> None)
      | Some e \<Rightarrow> if e = ENOENT then Inr False else Inl (Wrapf (OsErr e) ''error checking %v'' [i]))"
  by (auto simp: hasIndexBlobID_def os_Stat_def os_IsNotExist_def emit_def Let_def
      split: prod.splits option.splits)

lemma hasIndexBlobID_snd:
  "\<exists>r. snd (hasIndexBlobID c i w) = emit (Sys (Stat (indexBlobPath c i)) r) (snd (env_step w))"
  by (auto simp: hasIndexBlobID_def os_Stat_def os_IsNotExist_def Let_def
      split: prod.splits option.splits)

lemma hasIndexBlobID_True_lookup:
  "hasIndexBlobID c i w = (Inr True, w1) \<Longrightarrow> lookup (indexBlobPath c i) (fs w1) \<noteq> None"
  by (auto simp: hasIndexBlobID_def os_Stat_def emit_def Let_def
      split: prod.splits option.splits if_splits)

lemma addContentToCache_None_lookup:
  "addContentToCache c i data w = (None, w') \<Longrightarrow> lookup (indexBlobPath c i) (fs w') \<noteq> None"
  unfolding addContentToCache_def
  by (auto simp: Let_def dest: hasIndexBlobID_True_lookup os_Rename_None_lookup
      split: prod.splits option.splits if_splits sum.splits)

text \<open>
  C5.  \<open>hasIndexBlobID\<close> makes one stat of the path of the identifier.  When the stat is
  not made to fail, the answer is whether the file is there, with no error.  A stat
  that reports not-found gives false with no error.  Any other failure of the stat
  comes back wrapped, and no error that comes back has not-found as its cause.  In
  the world a successful \<open>addContentToCache\<close> of the identifier leaves, with nothing
  interfering, the answer is true.
\<close>

theorem hasIndexBlobID_stat_outcomes:
  "(fst (env_step w) = None \<and> lookup (indexBlobPath c i) (fs (snd (env_step w))) \<noteq> None
      \<longrightarrow> fst (hasIndexBlobID c i w) = Inr True)
   \<and> (fst (env_step w) = None \<and> lookup (indexBlobPath c i) (fs (snd (env_step w))) = None
      \<longrightarrow> fst (hasIndexBlobID c i w) = Inr False)
   \<and> (fst (env_step w) = Some ENOENT \<longrightarrow> fst (hasIndexBlobID c i w) = Inr False)
   \<and> (\<forall>e. fst (env_step w) = Some e \<and> e \<noteq> ENOENT
      \<longrightarrow> fst (hasIndexBlobID c i w) = Inl (Wrapf (OsErr e) ''error checking %v'' [i]))
   \<and> (\<forall>err. fst (hasIndexBlobID c i w) = Inl err \<longrightarrow> errors_Cause err \<noteq> OsErr ENOENT)
   \<and> (\<exists>r. trace (snd (hasIndexBlobID c i w)) = trace w @ [Sys (Stat (indexBlobPath c i)) r])
   \<and> (\<forall>data w0. addContentToCache c i data w0 = (None, w) \<and> calm w
      \<longrightarrow> fst (hasIndexBlobID c i w) = Inr True)"
proof -
  have a: "\<exists>r. trace (snd (hasIndexBlobID c i w)) = trace w @ [Sys (Stat (indexBlobPath c i)) r]"
    using hasIndexBlobID_snd [of c i w] trace_env_step [of w] by (auto simp: emit_def)
  have b: "fst (hasIndexBlobID c i w) = Inr True"
    if "addContentToCache c i data w0 = (None, w)" and "calm w" for data w0
    using addContentToCache_None_lookup [OF that(1)] env_step_calm [OF that(2)]
    by (simp add: hasIndexBlobID_fst)
  show ?thesis
    using a b by (auto simp: hasIndexBlobID_fst split: option.splits)
qed

lemmas run_defs =
  addContentToCache_def hasIndexBlobID_def os_Stat_def env_step_def lookup_def
  indexBlobPath_def filepath_Join_def simpleIndexSuffix_def emit_def os_IsNotExist_def
  writeTempFileAtomic_def os_CreateTemp_def create_temp_try.simps show_nat.simps
  digit_char_def os_MkdirAll_def file_Write_def file_Close_def os_Rename_def
  put_file_def del_file_def Let_def calm_def

theorem hasIndexBlobID_stat_outcomes_witness:
  "fst (hasIndexBlobID \<lparr>dirname = ''cache'', timeNow = (\<lambda>w. 0), v1PerContentOverhead = 0\<rparr> ''a''
         \<lparr>fs = (\<lambda>d. None)(''cache'' \<mapsto> [(''a.sndx'', \<lparr>content = [1], modtime = 0\<rparr>)]),
          clock = 0, rand = 0, script = [], trace = []\<rparr>) = Inr True
   \<and> fst (hasIndexBlobID \<lparr>dirname = ''cache'', timeNow = (\<lambda>w. 0), v1PerContentOverhead = 0\<rparr> ''b''
         \<lparr>fs = (\<lambda>d. None)(''cache'' \<mapsto> [(''a.sndx'', \<lparr>content = [1], modtime = 0\<rparr>)]),
          clock = 0, rand = 0, script = [], trace = []\<rparr>) = Inr False
   \<and> fst (hasIndexBlobID \<lparr>dirname = ''cache'', timeNow = (\<lambda>w. 0), v1PerContentOverhead = 0\<rparr> ''a''
         \<lparr>fs = (\<lambda>d. None)(''cache'' \<mapsto> [(''a.sndx'', \<lparr>content = [1], modtime = 0\<rparr>)]),
          clock = 0, rand = 0, script = [([], Some EACCES)], trace = []\<rparr>)
       = Inl (Wrapf (OsErr EACCES) ''error checking %v'' [''a''])
   \<and> fst (hasIndexBlobID \<lparr>dirname = ''cache'', timeNow = (\<lambda>w. 0), v1PerContentOverhead = 0\<rparr> ''a''
         (snd (addContentToCache \<lparr>dirname = ''cache'', timeNow = (\<lambda>w. 0), v1PerContentOverhead = 0\<rparr>
                 ''a'' [1, 2]
                 \<lparr>fs = (\<lambda>d. None), clock = 0, rand = 0, script = [], trace = []\<rparr>))) = Inr True"
proof -
  let ?c = "\<lparr>dirname = ''cache'', timeNow = (\<lambda>w. 0), v1PerContentOverhead = 0\<rparr>"
  let ?w = "\<lparr>fs = (\<lambda>d. None)(''cache'' \<mapsto> [(''a.sndx'', \<lparr>content = [1], modtime = 0\<rparr>)]),
             clock = 0, rand = 0, script = [], trace = []\<rparr>"
  let ?we = "\<lparr>fs = (\<lambda>d. None), clock = 0, rand = 0, script = [], trace = []\<rparr>"
  let ?wa = "snd (addContentToCache ?c ''a'' [1, 2] ?we)"
  have 1: "fst (env_step ?w) = None \<and> lookup (indexBlobPath ?c ''a'') (fs (snd (env_step ?w))) \<noteq> None"
    by (simp add: run_defs)
  have 2: "fst (env_step ?w) = None \<and> lookup (indexBlobPath ?c ''b'') (fs (snd (env_step ?w))) = None"
    by (simp add: run_defs)
  have 3: "fst (env_step (?w\<lparr>script := [([], Some EACCES)]\<rparr>)) = Some EACCES \<and> EACCES \<noteq> ENOENT"
    by (simp add: run_defs)
  have 4: "addContentToCache ?c ''a'' [1, 2] ?we = (None, ?wa) \<and> calm ?wa"
    by (simp add: run_defs)
  note T = hasIndexBlobID_stat_outcomes
  from T [of ?w ?c "''a''", THEN conjunct1, rule_format, OF 1]
       T [of ?w ?c "''b''", THEN conjunct2, THEN conjunct1, rule_format, OF 2]
       T [of "?w\<lparr>script := [([], Some EACCES)]\<rparr>" ?c "''a''", THEN conjunct2, THEN conjunct2,
          THEN conjunct2, THEN conjunct1, rule_format, OF 3]
       T [of ?wa ?c "''a''", THEN conjunct2, THEN conjunct2, THEN conjunct2, THEN conjunct2,
          THEN conjunct2, THEN conjunct2, rule_format, OF 4]
  show ?thesis by simp
qed

section \<open>Adding an index blob\<close>

lemma create_temp_try_free:
  "fs w d = Some ents \<Longrightarrow> map_of ents (pat @ show_nat (rand w + k)) = None \<Longrightarrow> n0 + k < 10000
   \<Longrightarrow> \<exists>n r. create_temp_try d pat n0 w
             = (Inr n, w\<lparr>rand := r, fs := (fs w)(d \<mapsto> ents @ [(n, \<lparr>content = [], modtime = clock w\<rparr>)])\<rparr>)
           \<and> map_of ents n = None"
proof (induction k arbitrary: n0 w)
  case 0
  then show ?case
    by (subst create_temp_try.simps) (auto simp: Let_def)
next
  case (Suc k)
  show ?case
  proof (cases "map_of ents (pat @ show_nat (rand w))")
    case None
    with Suc.prems show ?thesis
      by (subst create_temp_try.simps) (auto simp: Let_def)
  next
    case (Some f)
    let ?w = "w\<lparr>rand := Suc (rand w)\<rparr>"
    have "\<exists>n r. create_temp_try d pat (Suc n0) ?w
             = (Inr n, ?w\<lparr>rand := r, fs := (fs ?w)(d \<mapsto> ents @ [(n, \<lparr>content = [], modtime = clock ?w\<rparr>)])\<rparr>)
           \<and> map_of ents n = None"
      using Suc.prems by (intro Suc.IH) auto
    then obtain n r where
      "create_temp_try d pat (Suc n0) ?w
         = (Inr n, ?w\<lparr>rand := r, fs := (fs ?w)(d \<mapsto> ents @ [(n, \<lparr>content = [], modtime = clock ?w\<rparr>)])\<rparr>)"
      "map_of ents n = None"
      by blast
    with Some Suc.prems show ?thesis
      by (subst create_temp_try.simps) (auto simp: Let_def)
  qed
qed

lemma env_step_quiet: "script w = [] \<Longrightarrow> env_step w = (None, w)"
  by (simp add: env_step_def)

lemma delete_absent: "map_of al k = None \<Longrightarrow> AList.delete k al = al"
  by (induction al) (auto split: if_splits)

lemma update_absent: "map_of al k = None \<Longrightarrow> AList.update k v al = al @ [(k, v)]"
  by (induction al) (auto split: if_splits)

lemma lookup_new_entry:
  "map_of ents n = None \<Longrightarrow> lookup (d, n) (m(d \<mapsto> ents @ [(n, v)])) = Some v"
  by (simp add: lookup_def map_add_def)

lemma update_last_entry:
  "map_of ents n = None \<Longrightarrow> AList.update n v' (ents @ [(n, v)]) = ents @ [(n, v')]"
  by (induction ents) (auto split: if_splits)

lemma delete_last_entry:
  "map_of ents n = None \<Longrightarrow> AList.delete n (ents @ [(n, v)]) = ents"
  by (induction ents) (auto split: if_splits)

lemma put_file_new_entry:
  "map_of ents n = None \<Longrightarrow>
   put_file (d, n) v' (m(d \<mapsto> ents @ [(n, v)])) = m(d \<mapsto> ents @ [(n, v')])"
  by (simp add: put_file_def update_last_entry)

lemma del_file_new_entry:
  "map_of ents n = None \<Longrightarrow> del_file (d, n) (m(d \<mapsto> ents @ [(n, v)])) = m(d \<mapsto> ents)"
  by (simp add: del_file_def delete_last_entry)

lemma file_Write_quiet:
  "script w = [] \<Longrightarrow> lookup p (fs w) = Some f \<Longrightarrow>
   file_Write p b w
     = (None, w\<lparr>fs := put_file p \<lparr>content = content f @ b, modtime = clock w\<rparr> (fs w),
                 trace := trace w @ [Sys (Write p b) None]\<rparr>)"
  by (simp add: file_Write_def env_step_quiet emit_def)

lemma file_Close_quiet:
  "script w = [] \<Longrightarrow> file_Close p w = (None, w\<lparr>trace := trace w @ [Sys (Close p) None]\<rparr>)"
  by (simp add: file_Close_def env_step_quiet emit_def)

lemma os_CreateTemp_quiet:
  assumes "script w = []" "fs w d = Some ents"
    and "map_of ents (pat @ show_nat (rand w + k)) = None" "k < 10000"
  shows "\<exists>n r. os_CreateTemp d pat w
           = (Inr (d, n),
              w\<lparr>rand := r,
                fs := (fs w)(d \<mapsto> ents @ [(n, \<lparr>content = [], modtime = clock w\<rparr>)]),
                trace := trace w @ [Sys (CreateTemp d pat) None]\<rparr>)
         \<and> map_of ents n = None"
proof -
  from create_temp_try_free [of w d ents pat k 0] assms
  obtain n r where ct: "create_temp_try d pat 0 w
       = (Inr n, w\<lparr>rand := r, fs := (fs w)(d \<mapsto> ents @ [(n, \<lparr>content = [], modtime = clock w\<rparr>)])\<rparr>)"
    and free: "map_of ents n = None"
    by auto
  show ?thesis
    using assms(1) free
    by (intro exI [of _ n] exI [of _ r])
       (simp add: os_CreateTemp_def env_step_quiet ct filepath_Join_def emit_def)
qed

lemma os_CreateTemp_quiet_nodir:
  "script w = [] \<Longrightarrow> fs w d = None \<Longrightarrow>
   os_CreateTemp d pat w
     = (Inl (OsErr ENOENT),
        w\<lparr>rand := Suc (rand w), trace := trace w @ [Sys (CreateTemp d pat) (Some ENOENT)]\<rparr>)"
  by (simp add: os_CreateTemp_def env_step_quiet create_temp_try.simps emit_def)

lemma os_MkdirAll_quiet_nodir:
  "script w = [] \<Longrightarrow> fs w d = None \<Longrightarrow>
   os_MkdirAll d w = (None, w\<lparr>fs := (fs w)(d \<mapsto> []), trace := trace w @ [Sys (MkdirAll d) None]\<rparr>)"
  by (simp add: os_MkdirAll_def env_step_quiet emit_def)

text \<open>In a quiet world the temporary file is written under a name that was free.\<close>

lemma writeTempFileAtomic_quiet:
  assumes "script w = []"
    and "\<exists>k<10000. lookup (d, ''tmp'' @ show_nat (rand w + k)) (fs w) = None"
  shows "\<exists>n r t. writeTempFileAtomic d data w
           = (Inr (d, n),
              w\<lparr>rand := r,
                fs := (fs w)(d \<mapsto> (case fs w d of None \<Rightarrow> [] | Some ents \<Rightarrow> ents)
                                  @ [(n, \<lparr>content = data, modtime = clock w\<rparr>)]),
                trace := t\<rparr>)
         \<and> lookup (d, n) (fs w) = None"
proof (cases "fs w d")
  case None
  let ?w1 = "w\<lparr>rand := Suc (rand w), trace := trace w @ [Sys (CreateTemp d ''tmp'') (Some ENOENT)]\<rparr>"
  let ?w2 = "?w1\<lparr>fs := (fs ?w1)(d \<mapsto> []), trace := trace ?w1 @ [Sys (MkdirAll d) None]\<rparr>"
  have 1: "os_CreateTemp d ''tmp'' w = (Inl (OsErr ENOENT), ?w1)"
    using assms(1) None by (rule os_CreateTemp_quiet_nodir)
  have 2: "os_MkdirAll d ?w1 = (None, ?w2)"
    using assms(1) None by (intro os_MkdirAll_quiet_nodir) auto
  from os_CreateTemp_quiet [of ?w2 d "[]" "''tmp''" 0] assms(1)
  obtain n r where 3: "os_CreateTemp d ''tmp'' ?w2
      = (Inr (d, n), ?w2\<lparr>rand := r,
            fs := (fs ?w2)(d \<mapsto> [] @ [(n, \<lparr>content = [], modtime = clock ?w2\<rparr>)]),
            trace := trace ?w2 @ [Sys (CreateTemp d ''tmp'') None]\<rparr>)"
    by auto
  have 4: "lookup (d, n) ((fs w)(d \<mapsto> [(n, \<lparr>content = [], modtime = clock w\<rparr>)]))
             = Some \<lparr>content = [], modtime = clock w\<rparr>"
    by (simp add: lookup_def)
  show ?thesis
    using assms(1) None 3 4
    by (intro exI [of _ n] exI [of _ r]
          exI [of _ "trace w @ [Sys (CreateTemp d ''tmp'') (Some ENOENT), Sys (MkdirAll d) None,
             Sys (CreateTemp d ''tmp'') None, Sys (Write (d, n) data) None, Sys (Close (d, n)) None]"])
       (simp add: writeTempFileAtomic_def 1 2 os_IsNotExist_def file_Write_quiet file_Close_quiet
        put_file_def lookup_def)
next
  case (Some ents)
  from assms(2) Some obtain k where k: "k < 10000" "map_of ents (''tmp'' @ show_nat (rand w + k)) = None"
    by (auto simp: lookup_def)
  from os_CreateTemp_quiet [OF assms(1) Some k(2) k(1)]
  obtain n r where 3: "os_CreateTemp d ''tmp'' w
      = (Inr (d, n), w\<lparr>rand := r,
            fs := (fs w)(d \<mapsto> ents @ [(n, \<lparr>content = [], modtime = clock w\<rparr>)]),
            trace := trace w @ [Sys (CreateTemp d ''tmp'') None]\<rparr>)"
    and free: "map_of ents n = None"
    by auto
  show ?thesis
    using assms(1) Some free
    by (intro exI [of _ n] exI [of _ r]
          exI [of _ "trace w @ [Sys (CreateTemp d ''tmp'') None, Sys (Write (d, n) data) None,
             Sys (Close (d, n)) None]"])
       (simp add: writeTempFileAtomic_def 3 file_Write_quiet file_Close_quiet
        lookup_new_entry put_file_new_entry, simp add: lookup_def)
qed

lemma hasIndexBlobID_quiet:
  "script w = [] \<Longrightarrow>
   hasIndexBlobID c i w
     = (Inr (lookup (indexBlobPath c i) (fs w) \<noteq> None),
        w\<lparr>trace := trace w @ [Sys (Stat (indexBlobPath c i))
                (case lookup (indexBlobPath c i) (fs w) of None \<Rightarrow> Some ENOENT | Some f \<Rightarrow> None)]\<rparr>)"
  by (auto simp: hasIndexBlobID_def os_Stat_def env_step_quiet emit_def os_IsNotExist_def
      split: option.splits)

lemma os_Rename_quiet:
  "script w = [] \<Longrightarrow> lookup src (fs w) = Some f \<Longrightarrow> fs w (fst dst) = Some ents \<Longrightarrow>
   os_Rename src dst w
     = (None, w\<lparr>fs := put_file dst f (del_file src (fs w)),
                 trace := trace w @ [Sys (Rename src dst) None]\<rparr>)"
  by (simp add: os_Rename_def env_step_quiet emit_def)

lemma addContentToCache_present:
  assumes "hasIndexBlobID c i w = (Inr True, w1)"
  shows "addContentToCache c i data w = (None, w1)
       \<and> fs w1 = fs (snd (env_step w))
       \<and> rand w1 = rand w
       \<and> trace w1 = trace w @ [Sys (Stat (indexBlobPath c i)) None]"
proof -
  have "addContentToCache c i data w = (None, w1)"
    using assms by (simp add: addContentToCache_def)
  moreover have "fs w1 = fs (snd (env_step w))" "rand w1 = rand w"
    using assms
    by (auto simp: hasIndexBlobID_def os_Stat_def emit_def env_step_def Let_def
        split: prod.splits option.splits if_splits list.splits)
  moreover have "trace w1 = trace w @ [Sys (Stat (indexBlobPath c i)) None]"
    using assms trace_env_step [of w]
    by (auto simp: hasIndexBlobID_def os_Stat_def emit_def Let_def
        split: prod.splits option.splits if_splits)
  ultimately show ?thesis by simp
qed

lemma addContentToCache_quiet_absent:
  assumes q: "script w = []"
    and free: "\<exists>k<10000. lookup (dirname c, ''tmp'' @ show_nat (rand w + k)) (fs w) = None"
    and absent: "lookup (indexBlobPath c i) (fs w) = None"
  shows "\<exists>r t. addContentToCache c i data w
           = (None,
              w\<lparr>rand := r,
                fs := (fs w)(dirname c \<mapsto> (case fs w (dirname c) of None \<Rightarrow> [] | Some ents \<Rightarrow> ents)
                          @ [(i @ simpleIndexSuffix, \<lparr>content = data, modtime = clock w\<rparr>)]),
                trace := t\<rparr>)"
proof -
  let ?d = "dirname c"
  let ?p = "indexBlobPath c i"
  let ?ents = "case fs w ?d of None \<Rightarrow> [] | Some ents \<Rightarrow> ents"
  let ?f = "\<lparr>content = data, modtime = clock w\<rparr>"
  let ?w1 = "w\<lparr>trace := trace w @ [Sys (Stat ?p) (Some ENOENT)]\<rparr>"
  have 1: "hasIndexBlobID c i w = (Inr False, ?w1)"
    using hasIndexBlobID_quiet [OF q, of c i] absent by simp
  have "\<exists>k<10000. lookup (?d, ''tmp'' @ show_nat (rand ?w1 + k)) (fs ?w1) = None"
    using free by simp
  from writeTempFileAtomic_quiet [of ?w1 ?d data, OF _ this] q
  obtain n r t where 2: "writeTempFileAtomic ?d data ?w1
      = (Inr (?d, n), ?w1\<lparr>rand := r, fs := (fs ?w1)(?d \<mapsto> ?ents @ [(n, ?f)]), trace := t\<rparr>)"
    and n: "lookup (?d, n) (fs ?w1) = None"
    by auto
  let ?w2 = "?w1\<lparr>rand := r, fs := (fs ?w1)(?d \<mapsto> ?ents @ [(n, ?f)]), trace := t\<rparr>"
  have n': "map_of ?ents n = None"
    using n by (auto simp: lookup_def split: option.splits)
  have a': "map_of ?ents (i @ simpleIndexSuffix) = None"
    using absent by (auto simp: lookup_def indexBlobPath_def filepath_Join_def split: option.splits)
  have 3: "os_Rename (?d, n) ?p ?w2
      = (None, ?w2\<lparr>fs := put_file ?p ?f (del_file (?d, n) (fs ?w2)),
                    trace := trace ?w2 @ [Sys (Rename (?d, n) ?p) None]\<rparr>)"
    using q n' by (intro os_Rename_quiet [where ents = "?ents @ [(n, ?f)]"])
      (simp_all add: lookup_new_entry indexBlobPath_def filepath_Join_def)
  have 4: "put_file ?p ?f (del_file (?d, n) (fs ?w2)) = (fs w)(?d \<mapsto> ?ents @ [(i @ simpleIndexSuffix, ?f)])"
    using n' a' by (simp add: del_file_new_entry put_file_def indexBlobPath_def filepath_Join_def
        update_absent)
  show ?thesis
    using 1 2 3 4
    by (intro exI [of _ r] exI [of _ "t @ [Sys (Rename (?d, n) ?p) None]"])
       (simp add: addContentToCache_def)
qed

text \<open>
  C1.  When \<open>hasIndexBlobID\<close> answers true, \<open>addContentToCache\<close> returns no error in the
  world the check left: its one system call is the stat, and the file system is as
  the environment left it, for every identifier.  In a world where nothing interferes
  or fails and a temporary name is free, for a plain directory and an identifier that
  makes a plain file name with the suffix, two calls for the same identifier both
  return no error, the second changes no file, and the directory after them is the
  directory before with one entry more, the file of the identifier with the bytes of
  the first call (or the directory before, if the file of the identifier was there).
  For an identifier with a separator or one that makes an over-long name the operating
  system can fail the stat or the rename, and the call returns that error.
\<close>

theorem addContentToCache_idempotent:
  "(\<forall>w1. hasIndexBlobID c i w = (Inr True, w1) \<longrightarrow>
       addContentToCache c i data w = (None, w1)
     \<and> fs w1 = fs (snd (env_step w))
     \<and> trace w1 = trace w @ [Sys (Stat (indexBlobPath c i)) None])
   \<and> (script w = [] \<and> plain_dir (dirname c) \<and> plain_name (i @ simpleIndexSuffix)
      \<and> (\<exists>k<10000. lookup (dirname c, ''tmp'' @ show_nat (rand w + k)) (fs w) = None) \<longrightarrow>
       fst (addContentToCache c i data w) = None
     \<and> fst (addContentToCache c i data' (snd (addContentToCache c i data w))) = None
     \<and> fs (snd (addContentToCache c i data' (snd (addContentToCache c i data w))))
         = fs (snd (addContentToCache c i data w))
     \<and> fs (snd (addContentToCache c i data w))
         = (case lookup (indexBlobPath c i) (fs w) of
              Some f \<Rightarrow> fs w
            | None \<Rightarrow>
                (fs w)(dirname c \<mapsto> (case fs w (dirname c) of None \<Rightarrow> [] | Some ents \<Rightarrow> ents)
                   @ [(i @ simpleIndexSuffix, \<lparr>content = data, modtime = clock w\<rparr>)])))"
proof (intro conjI allI impI)
  fix w1 assume "hasIndexBlobID c i w = (Inr True, w1)"
  from addContentToCache_present [OF this, of data]
  show "addContentToCache c i data w = (None, w1)" "fs w1 = fs (snd (env_step w))"
    "trace w1 = trace w @ [Sys (Stat (indexBlobPath c i)) None]"
    by simp_all
next
  assume "script w = [] \<and> plain_dir (dirname c) \<and> plain_name (i @ simpleIndexSuffix)
      \<and> (\<exists>k<10000. lookup (dirname c, ''tmp'' @ show_nat (rand w + k)) (fs w) = None)"
  then have h: "script w = [] \<and> (\<exists>k<10000. lookup (dirname c, ''tmp'' @ show_nat (rand w + k)) (fs w) = None)"
    by simp
  let ?p = "indexBlobPath c i"
  let ?new = "(fs w)(dirname c \<mapsto> (case fs w (dirname c) of None \<Rightarrow> [] | Some ents \<Rightarrow> ents)
                   @ [(i @ simpleIndexSuffix, \<lparr>content = data, modtime = clock w\<rparr>)])"
  have first: "fst (addContentToCache c i data w) = None
      \<and> script (snd (addContentToCache c i data w)) = []
      \<and> lookup ?p (fs (snd (addContentToCache c i data w))) \<noteq> None
      \<and> fs (snd (addContentToCache c i data w))
         = (case lookup ?p (fs w) of Some f \<Rightarrow> fs w | None \<Rightarrow> ?new)"
  proof (cases "lookup ?p (fs w)")
    case None
    from addContentToCache_quiet_absent [OF h [THEN conjunct1] h [THEN conjunct2] None, of data]
    obtain r t where "addContentToCache c i data w = (None, w\<lparr>rand := r, fs := ?new, trace := t\<rparr>)"
      by blast
    moreover have "lookup ?p ?new \<noteq> None"
      by (auto simp: lookup_def indexBlobPath_def filepath_Join_def map_add_def split: option.splits)
    ultimately show ?thesis
      using h None by simp
  next
    case (Some f)
    then show ?thesis
      using h hasIndexBlobID_quiet [of w c i]
      by (simp add: addContentToCache_def)
  qed
  let ?w1 = "snd (addContentToCache c i data w)"
  have second: "fst (addContentToCache c i data' ?w1) = None
      \<and> fs (snd (addContentToCache c i data' ?w1)) = fs ?w1"
    using first hasIndexBlobID_quiet [of ?w1 c i]
    by (auto simp: addContentToCache_def)
  show "fst (addContentToCache c i data w) = None"
    "fst (addContentToCache c i data' ?w1) = None"
    "fs (snd (addContentToCache c i data' ?w1)) = fs ?w1"
    "fs ?w1 = (case lookup ?p (fs w) of Some f \<Rightarrow> fs w | None \<Rightarrow> ?new)"
    using first second by simp_all
qed

theorem addContentToCache_idempotent_witness:
  "fst (addContentToCache \<lparr>dirname = ''cache'', timeNow = (\<lambda>w. 0), v1PerContentOverhead = 0\<rparr> ''a'' [7, 8]
         \<lparr>fs = (\<lambda>d. None), clock = 5, rand = 3, script = [], trace = []\<rparr>) = None
   \<and> fst (addContentToCache \<lparr>dirname = ''cache'', timeNow = (\<lambda>w. 0), v1PerContentOverhead = 0\<rparr> ''a'' [9]
         (snd (addContentToCache \<lparr>dirname = ''cache'', timeNow = (\<lambda>w. 0), v1PerContentOverhead = 0\<rparr> ''a'' [7, 8]
            \<lparr>fs = (\<lambda>d. None), clock = 5, rand = 3, script = [], trace = []\<rparr>))) = None
   \<and> fs (snd (addContentToCache \<lparr>dirname = ''cache'', timeNow = (\<lambda>w. 0), v1PerContentOverhead = 0\<rparr> ''a'' [9]
         (snd (addContentToCache \<lparr>dirname = ''cache'', timeNow = (\<lambda>w. 0), v1PerContentOverhead = 0\<rparr> ''a'' [7, 8]
            \<lparr>fs = (\<lambda>d. None), clock = 5, rand = 3, script = [], trace = []\<rparr>)))) ''cache''
       = Some [(''a.sndx'', \<lparr>content = [7, 8], modtime = 5\<rparr>)]
   \<and> fst (addContentToCache \<lparr>dirname = ''cache'', timeNow = (\<lambda>w. 0), v1PerContentOverhead = 0\<rparr> ''b'' [9]
         \<lparr>fs = (\<lambda>d. None)(''cache'' \<mapsto> [(''b.sndx'', \<lparr>content = [1], modtime = 0\<rparr>)]),
          clock = 5, rand = 3, script = [], trace = []\<rparr>) = None"
proof -
  let ?c = "\<lparr>dirname = ''cache'', timeNow = (\<lambda>w. 0), v1PerContentOverhead = 0\<rparr>"
  let ?w = "\<lparr>fs = (\<lambda>d. None), clock = 5, rand = 3, script = [], trace = []\<rparr>"
  have h: "script ?w = [] \<and> plain_dir (dirname ?c) \<and> plain_name (''a'' @ simpleIndexSuffix)
      \<and> (\<exists>k<10000. lookup (dirname ?c, ''tmp'' @ show_nat (rand ?w + k)) (fs ?w) = None)"
    by (auto simp: lookup_def plain_dir_def plain_name_def NAME_MAX_def PATH_MAX_def
        simpleIndexSuffix_def intro: exI [of _ 0])
  have l: "lookup (indexBlobPath ?c ''a'') (fs ?w) = None"
    by (simp add: run_defs)
  let ?v = "\<lparr>fs = (\<lambda>d. None)(''cache'' \<mapsto> [(''b.sndx'', \<lparr>content = [1], modtime = 0\<rparr>)]),
             clock = 5, rand = 3, script = [], trace = []\<rparr>"
  have p: "hasIndexBlobID ?c ''b'' ?v = (Inr True, snd (hasIndexBlobID ?c ''b'' ?v))"
    by (simp add: run_defs)
  from addContentToCache_idempotent [of ?c "''a''" ?w "[7, 8]" "[9]", THEN conjunct2, rule_format, OF h]
       addContentToCache_idempotent [of ?c "''b''" ?v "[9]", THEN conjunct1, rule_format, OF p]
  show ?thesis
    by (simp add: lookup_def indexBlobPath_def filepath_Join_def simpleIndexSuffix_def)
qed

text \<open>
  C2.  When the rename of the temporary file onto the path of the identifier fails,
  \<open>addContentToCache\<close> checks the existence of the destination again, with one more
  stat, and returns what that check gives: no error when the destination is there, the
  error \<open>unsuccessful index write of content\<close> with the identifier when it is not, and
  the error of the check when the check fails.  Every error it returns then names the
  identifier.
\<close>

theorem addContentToCache_rename_failed:
  assumes "hasIndexBlobID c i w = (Inr False, w1)"
    and "writeTempFileAtomic (dirname c) data w1 = (Inr tmpFile, w2)"
    and "os_Rename tmpFile (indexBlobPath c i) w2 = (Some e, w3)"
  shows "addContentToCache c i data w
           = (case fst (hasIndexBlobID c i w3) of
                Inr True \<Rightarrow> None
              | Inr False \<Rightarrow> Some (Errorf ''unsuccessful index write of content %q'' [i])
              | Inl err \<Rightarrow> Some err,
              snd (hasIndexBlobID c i w3))
       \<and> (\<exists>r. trace (snd (addContentToCache c i data w))
                = trace w3 @ [Sys (Stat (indexBlobPath c i)) r])
       \<and> (fst (env_step w3) = None \<and> lookup (indexBlobPath c i) (fs (snd (env_step w3))) \<noteq> None
            \<longrightarrow> fst (addContentToCache c i data w) = None)
       \<and> (fst (env_step w3) = None \<and> lookup (indexBlobPath c i) (fs (snd (env_step w3))) = None
            \<longrightarrow> fst (addContentToCache c i data w)
                  = Some (Errorf ''unsuccessful index write of content %q'' [i]))
       \<and> (\<forall>err. fst (addContentToCache c i data w) = Some err \<longrightarrow> i \<in> set (error_args err))"
proof -
  have eq: "addContentToCache c i data w
           = (case fst (hasIndexBlobID c i w3) of
                Inr True \<Rightarrow> None
              | Inr False \<Rightarrow> Some (Errorf ''unsuccessful index write of content %q'' [i])
              | Inl err \<Rightarrow> Some err,
              snd (hasIndexBlobID c i w3))"
    using assms by (simp add: addContentToCache_def split: prod.splits sum.splits)
  have tr: "\<exists>r. trace (snd (addContentToCache c i data w))
                = trace w3 @ [Sys (Stat (indexBlobPath c i)) r]"
    using hasIndexBlobID_snd [of c i w3] trace_env_step [of w3]
    by (auto simp: eq emit_def)
  show ?thesis
    using tr by (auto simp: eq hasIndexBlobID_fst split: option.splits if_splits bool.splits)
qed

theorem addContentToCache_rename_failed_witness:
  "fst (addContentToCache \<lparr>dirname = ''cache'', timeNow = (\<lambda>w. 0), v1PerContentOverhead = 0\<rparr> ''a'' [7, 8]
         \<lparr>fs = (\<lambda>d. None)(''cache'' \<mapsto> []), clock = 5, rand = 3,
          script = [([], None), ([], None), ([], None), ([], None),
                    ([Publish (''cache'', ''a.sndx'') [9]], Some EACCES)],
          trace = []\<rparr>) = None
   \<and> fst (addContentToCache \<lparr>dirname = ''cache'', timeNow = (\<lambda>w. 0), v1PerContentOverhead = 0\<rparr> ''a'' [7, 8]
         \<lparr>fs = (\<lambda>d. None)(''cache'' \<mapsto> []), clock = 5, rand = 3,
          script = [([], None), ([], None), ([], None), ([], None), ([], Some EACCES)],
          trace = []\<rparr>) = Some (Errorf ''unsuccessful index write of content %q'' [''a''])"
proof -
  let ?c = "\<lparr>dirname = ''cache'', timeNow = (\<lambda>w. 0), v1PerContentOverhead = 0\<rparr>"
  let ?u = "\<lparr>fs = (\<lambda>d. None)(''cache'' \<mapsto> []), clock = 5, rand = 3,
          script = [([], None), ([], None), ([], None), ([], None),
                    ([Publish (''cache'', ''a.sndx'') [9]], Some EACCES)],
          trace = []\<rparr>"
  let ?v = "\<lparr>fs = (\<lambda>d. None)(''cache'' \<mapsto> []), clock = 5, rand = 3,
          script = [([], None), ([], None), ([], None), ([], None), ([], Some EACCES)],
          trace = []\<rparr>"
  let ?ua = "snd (hasIndexBlobID ?c ''a'' ?u)"
  let ?ub = "snd (writeTempFileAtomic (dirname ?c) [7, 8] ?ua)"
  let ?uc = "snd (os_Rename (''cache'', ''tmp3'') (indexBlobPath ?c ''a'') ?ub)"
  let ?va = "snd (hasIndexBlobID ?c ''a'' ?v)"
  let ?vb = "snd (writeTempFileAtomic (dirname ?c) [7, 8] ?va)"
  let ?vc = "snd (os_Rename (''cache'', ''tmp3'') (indexBlobPath ?c ''a'') ?vb)"
  have u1: "hasIndexBlobID ?c ''a'' ?u = (Inr False, ?ua)"
    by (simp add: run_defs)
  have u2: "writeTempFileAtomic (dirname ?c) [7, 8] ?ua = (Inr (''cache'', ''tmp3''), ?ub)"
    by (simp add: run_defs)
  have u3: "os_Rename (''cache'', ''tmp3'') (indexBlobPath ?c ''a'') ?ub = (Some (OsErr EACCES), ?uc)"
    by (simp add: run_defs)
  have u4: "fst (env_step ?uc) = None \<and> lookup (indexBlobPath ?c ''a'') (fs (snd (env_step ?uc))) \<noteq> None"
    by (simp add: run_defs)
  have v1: "hasIndexBlobID ?c ''a'' ?v = (Inr False, ?va)"
    by (simp add: run_defs)
  have v2: "writeTempFileAtomic (dirname ?c) [7, 8] ?va = (Inr (''cache'', ''tmp3''), ?vb)"
    by (simp add: run_defs)
  have v3: "os_Rename (''cache'', ''tmp3'') (indexBlobPath ?c ''a'') ?vb = (Some (OsErr EACCES), ?vc)"
    by (simp add: run_defs)
  have v4: "fst (env_step ?vc) = None \<and> lookup (indexBlobPath ?c ''a'') (fs (snd (env_step ?vc))) = None"
    by (simp add: run_defs)
  note U = addContentToCache_rename_failed [OF u1 u2 u3]
  note V = addContentToCache_rename_failed [OF v1 v2 v3]
  from U [THEN conjunct2, THEN conjunct2, THEN conjunct1, rule_format, OF u4]
       V [THEN conjunct2, THEN conjunct2, THEN conjunct2, THEN conjunct1, rule_format, OF v4]
  show ?thesis by simp
qed

section \<open>Writing the temporary file\<close>

lemma create_temp_calls_append [simp]:
  "create_temp_calls (xs @ ys) = create_temp_calls xs @ create_temp_calls ys"
  by (induction xs rule: create_temp_calls.induct) auto

lemma os_CreateTemp_trace:
  "\<exists>r. trace (snd (os_CreateTemp d pat w)) = trace w @ [Sys (CreateTemp d pat) r]
       \<and> (case fst (os_CreateTemp d pat w) of Inl err \<Rightarrow> \<exists>e. r = Some e \<and> err = OsErr e | Inr p \<Rightarrow> r = None)"
proof -
  have ct: "trace (snd (create_temp_try d pat n w)) = trace w" for n w
  proof (induction d pat n w rule: create_temp_try.induct)
    case (1 d pattern tries w)
    then show ?case
      by (subst create_temp_try.simps) (auto simp: Let_def split: option.splits)
  qed
  show ?thesis
    using ct [of 0 "snd (env_step w)"] trace_env_step [of w]
    by (auto simp: os_CreateTemp_def emit_def Let_def split: prod.splits option.splits sum.splits)
qed

lemma os_CreateTemp_calls:
  "os_CreateTemp d pat w = (r, w') \<Longrightarrow>
   create_temp_calls (trace w')
     = create_temp_calls (trace w) @ [case r of Inl err \<Rightarrow> (case err of OsErr e \<Rightarrow> Some e | _ \<Rightarrow> None) | Inr p \<Rightarrow> None]
   \<and> (case r of Inl err \<Rightarrow> \<exists>e. err = OsErr e | Inr p \<Rightarrow> True)"
  using os_CreateTemp_trace [of d pat w] by (auto split: sum.splits)

lemma os_MkdirAll_calls:
  "os_MkdirAll d w = (r, w') \<Longrightarrow> create_temp_calls (trace w') = create_temp_calls (trace w)"
  using trace_env_step [of w]
  by (auto simp: os_MkdirAll_def emit_def Let_def split: prod.splits option.splits)

lemma file_Write_calls:
  "file_Write p b w = (r, w') \<Longrightarrow>
   create_temp_calls (trace w') = create_temp_calls (trace w) \<and> (r = None \<or> (\<exists>e. r = Some (OsErr e)))"
  using trace_env_step [of w]
  by (auto simp: file_Write_def emit_def Let_def split: prod.splits option.splits)

lemma file_Close_calls:
  "file_Close p w = (r, w') \<Longrightarrow>
   create_temp_calls (trace w') = create_temp_calls (trace w) \<and> (r = None \<or> (\<exists>e. r = Some (OsErr e)))"
  using trace_env_step [of w]
  by (auto simp: file_Close_def emit_def Let_def split: prod.splits option.splits)

text \<open>
  The temporary file is created at most twice, and twice only after a first attempt
  that reported not-found.
\<close>

lemma writeTempFileAtomic_creation_attempts:
  "\<exists>r. create_temp_calls (trace (snd (writeTempFileAtomic d data w)))
         = create_temp_calls (trace w) @ [r] \<and> r \<noteq> Some ENOENT
     \<or> create_temp_calls (trace (snd (writeTempFileAtomic d data w)))
         = create_temp_calls (trace w) @ [Some ENOENT, r]"
  unfolding writeTempFileAtomic_def
  by (auto simp: os_IsNotExist_def Let_def
      dest!: os_CreateTemp_calls os_MkdirAll_calls file_Write_calls file_Close_calls
      split: prod.splits sum.splits option.splits)

text \<open>An error of \<open>writeTempFileAtomic\<close> wraps an errno, or is the error of the close.\<close>

lemma writeTempFileAtomic_errors:
  "fst (writeTempFileAtomic d data w) = Inl err \<Longrightarrow>
   (\<exists>e. err = Wrap (OsErr e) ''can't create tmp file'')
   \<or> (\<exists>e. err = Wrap (OsErr e) ''can't write to temp file'')
   \<or> err = Errorf ''can't close tmp file'' []"
  unfolding writeTempFileAtomic_def
  by (auto simp: os_IsNotExist_def Let_def
      dest!: os_CreateTemp_calls os_MkdirAll_calls file_Write_calls file_Close_calls
      split: prod.splits sum.splits option.splits if_splits)

text \<open>
  C8.  At a close that fails with \<open>EIO\<close>, after a creation and a write that
  succeeded, \<open>writeTempFileAtomic\<close> returns the error \<open>can't close tmp file\<close>, built
  from the message alone: the errno is not its cause.  At a write that fails with
  \<open>EIO\<close> it returns the errno wrapped, as it does for a creation that fails.
\<close>

theorem writeTempFileAtomic_close_failure_not_wrapped:
  "fst (writeTempFileAtomic ''cache'' [7, 8]
         \<lparr>fs = (\<lambda>d. None)(''cache'' \<mapsto> []), clock = 5, rand = 3,
          script = [([], None), ([], None), ([], Some EIO)], trace = []\<rparr>)
     = Inl (Errorf ''can't close tmp file'' [])
   \<and> errors_Cause (Errorf ''can't close tmp file'' []) \<noteq> OsErr EIO
   \<and> fst (writeTempFileAtomic ''cache'' [7, 8]
         \<lparr>fs = (\<lambda>d. None)(''cache'' \<mapsto> []), clock = 5, rand = 3,
          script = [([], None), ([], Some EIO)], trace = []\<rparr>)
     = Inl (Wrap (OsErr EIO) ''can't write to temp file'')
   \<and> fst (writeTempFileAtomic ''cache'' [7, 8]
         \<lparr>fs = (\<lambda>d. None)(''cache'' \<mapsto> []), clock = 5, rand = 3,
          script = [([], Some EIO)], trace = []\<rparr>)
     = Inl (Wrap (OsErr EIO) ''can't create tmp file'')"
  by (simp add: run_defs)

section \<open>Opening a mapped file with retries\<close>

lemma mmap_open_calls_append [simp]:
  "mmap_open_calls (xs @ ys) = mmap_open_calls xs @ mmap_open_calls ys"
  by (induction xs rule: mmap_open_calls.induct) auto

lemma sleep_calls_append [simp]:
  "sleep_calls (xs @ ys) = sleep_calls xs @ sleep_calls ys"
  by (induction xs rule: sleep_calls.induct) auto

lemma mmap_Open_calls:
  "mmap_Open p w = ((f, err), w') \<Longrightarrow>
   \<exists>e. mmap_open_calls (trace w') = mmap_open_calls (trace w) @ [e]
      \<and> sleep_calls (trace w') = sleep_calls (trace w)
      \<and> err = map_option OsErr e \<and> (e = None) = (f \<noteq> None)"
  using trace_env_step [of w]
  by (auto simp: mmap_Open_def emit_def Let_def split: prod.splits option.splits)

lemma int64_id: "- (2 ^ 63) \<le> x \<Longrightarrow> x < 2 ^ 63 \<Longrightarrow> int64 x = x"
  by (simp add: int64_def)

lemma nextDelay_doubles:
  assumes "k < maxRetries"
  shows "int64 (startingDelay * 2 ^ k * 2) = startingDelay * 2 ^ Suc k"
proof -
  have "(2::int) ^ Suc k \<le> 2 ^ 8"
    using assms by (intro power_increasing) (auto simp: maxRetries_def)
  then have "startingDelay * 2 ^ Suc k \<le> 10000000 * 256" "0 \<le> startingDelay * 2 ^ Suc k"
    by (auto simp: startingDelay_def Millisecond_def)
  then show ?thesis
    by (intro int64_id [THEN trans]) auto
qed

lemma mmap_retry_loop_done:
  "snd r = None \<or> \<not> retryCount < maxRetries \<Longrightarrow>
   mmap_retry_loop path r nextDelay retryCount w = (r, w)"
  by (subst mmap_retry_loop.simps) (auto split: option.splits)

lemma mmap_retry_loop_step:
  "snd r = Some err \<Longrightarrow> retryCount < maxRetries \<Longrightarrow>
   mmap_retry_loop path r nextDelay retryCount w
     = mmap_retry_loop path
         (fst (mmap_Open path (time_Sleep nextDelay
            (log_Debugf ''retry #%v unable to mmap.Open(): %v'' [ANat (retryCount + 1), AErr err] w))))
         (int64 (nextDelay * 2)) (retryCount + 1)
         (snd (mmap_Open path (time_Sleep nextDelay
            (log_Debugf ''retry #%v unable to mmap.Open(): %v'' [ANat (retryCount + 1), AErr err] w))))"
  by (subst mmap_retry_loop.simps) (simp add: Let_def split: prod.splits)

lemma mmap_retry_loop_inv:
  assumes "m = maxRetries - retryCount" "retryCount \<le> maxRetries"
    and "nextDelay = startingDelay * 2 ^ retryCount"
    and "snd r = map_option OsErr e0" "(e0 = None) = (fst r \<noteq> None)"
    and "mmap_retry_loop path r nextDelay retryCount w = (r', w')"
  shows "\<exists>rs. mmap_open_calls (trace w') = mmap_open_calls (trace w) @ rs
      \<and> sleep_calls (trace w')
          = sleep_calls (trace w) @ map (\<lambda>k. startingDelay * 2 ^ k) [retryCount ..< retryCount + length rs]
      \<and> retryCount + length rs \<le> maxRetries
      \<and> (\<forall>x \<in> set (butlast (e0 # rs)). x \<noteq> None)
      \<and> snd r' = map_option OsErr (last (e0 # rs))
      \<and> (last (e0 # rs) = None) = (fst r' \<noteq> None)
      \<and> (last (e0 # rs) \<noteq> None \<longrightarrow> retryCount + length rs = maxRetries)"
  using assms
proof (induction m arbitrary: retryCount nextDelay r e0 w)
  case 0
  have "mmap_retry_loop path r nextDelay retryCount w = (r, w)"
    using "0.prems"(1,2) by (intro mmap_retry_loop_done) simp
  with "0.prems"(6) have "r' = r" "w' = w"
    by simp_all
  with "0.prems"(1,2,4,5) show ?case
    by (intro exI [of _ "[]"]) auto
next
  case (Suc m)
  show ?case
  proof (cases e0)
    case None
    have "mmap_retry_loop path r nextDelay retryCount w = (r, w)"
      using Suc.prems(4) None by (intro mmap_retry_loop_done) simp
    with Suc.prems(6) have "r' = r" "w' = w"
      by simp_all
    with Suc.prems(2,4,5) None show ?thesis
      by (intro exI [of _ "[]"]) auto
  next
    case (Some e)
    let ?w2 = "time_Sleep nextDelay
      (log_Debugf ''retry #%v unable to mmap.Open(): %v'' [ANat (retryCount + 1), AErr (OsErr e)] w)"
    obtain f1 err1 w3 where op: "mmap_Open path ?w2 = ((f1, err1), w3)"
      by (metis prod.exhaust)
    from mmap_Open_calls [OF op] obtain e1 where e1:
      "mmap_open_calls (trace w3) = mmap_open_calls (trace ?w2) @ [e1]"
      "sleep_calls (trace w3) = sleep_calls (trace ?w2)"
      "err1 = map_option OsErr e1" "(e1 = None) = (f1 \<noteq> None)"
      by blast
    have lt: "retryCount < maxRetries"
      using Suc.prems(1) by simp
    have err: "snd r = Some (OsErr e)"
      using Suc.prems(4) Some by simp
    have nd: "int64 (nextDelay * 2) = startingDelay * 2 ^ Suc retryCount"
      using nextDelay_doubles [OF lt] Suc.prems(3) by simp
    have rec: "mmap_retry_loop path (f1, err1) (startingDelay * 2 ^ Suc retryCount) (Suc retryCount) w3 = (r', w')"
      using mmap_retry_loop_step [OF err lt, of path nextDelay w] Suc.prems(6) op nd by simp
    have m: "m = maxRetries - Suc retryCount" "Suc retryCount \<le> maxRetries"
      using Suc.prems(1) by simp_all
    have "\<exists>rs. mmap_open_calls (trace w') = mmap_open_calls (trace w3) @ rs
      \<and> sleep_calls (trace w')
          = sleep_calls (trace w3) @ map (\<lambda>k. startingDelay * 2 ^ k) [Suc retryCount ..< Suc retryCount + length rs]
      \<and> Suc retryCount + length rs \<le> maxRetries
      \<and> (\<forall>x \<in> set (butlast (e1 # rs)). x \<noteq> None)
      \<and> snd r' = map_option OsErr (last (e1 # rs))
      \<and> (last (e1 # rs) = None) = (fst r' \<noteq> None)
      \<and> (last (e1 # rs) \<noteq> None \<longrightarrow> Suc retryCount + length rs = maxRetries)"
      using e1(3,4) by (intro Suc.IH [OF m refl _ _ rec]) simp_all
    then obtain rs where rs0:
      "mmap_open_calls (trace w') = mmap_open_calls (trace w3) @ rs
      \<and> sleep_calls (trace w')
          = sleep_calls (trace w3) @ map (\<lambda>k. startingDelay * 2 ^ k) [Suc retryCount ..< Suc retryCount + length rs]
      \<and> Suc retryCount + length rs \<le> maxRetries
      \<and> (\<forall>x \<in> set (butlast (e1 # rs)). x \<noteq> None)
      \<and> snd r' = map_option OsErr (last (e1 # rs))
      \<and> (last (e1 # rs) = None) = (fst r' \<noteq> None)
      \<and> (last (e1 # rs) \<noteq> None \<longrightarrow> Suc retryCount + length rs = maxRetries)"
      ..
    have rs:
      "mmap_open_calls (trace w') = mmap_open_calls (trace w3) @ rs"
      "sleep_calls (trace w')
          = sleep_calls (trace w3) @ map (\<lambda>k. startingDelay * 2 ^ k) [Suc retryCount ..< Suc retryCount + length rs]"
      "Suc retryCount + length rs \<le> maxRetries"
      "\<forall>x \<in> set (butlast (e1 # rs)). x \<noteq> None"
      "snd r' = map_option OsErr (last (e1 # rs))"
      "(last (e1 # rs) = None) = (fst r' \<noteq> None)"
      "last (e1 # rs) \<noteq> None \<longrightarrow> Suc retryCount + length rs = maxRetries"
      using rs0 by - ((elim conjE, assumption)+)
    have tr: "mmap_open_calls (trace ?w2) = mmap_open_calls (trace w)"
      "sleep_calls (trace ?w2) = sleep_calls (trace w) @ [startingDelay * 2 ^ retryCount]"
      using Suc.prems(3) by (simp_all add: time_Sleep_def log_Debugf_def emit_def)
    have upt: "[retryCount ..< retryCount + length (e1 # rs)]
        = retryCount # [Suc retryCount ..< Suc retryCount + length rs]"
      using upt_conv_Cons [of retryCount "retryCount + length (e1 # rs)"] by (simp del: upt_Suc)
    have 1: "mmap_open_calls (trace w') = mmap_open_calls (trace w) @ (e1 # rs)"
      using rs(1) e1(1) tr(1) by simp
    have 2: "sleep_calls (trace w') = sleep_calls (trace w)
          @ map (\<lambda>k. startingDelay * 2 ^ k) [retryCount ..< retryCount + length (e1 # rs)]"
      unfolding upt using rs(2) e1(2) tr(2) by simp
    have 3: "retryCount + length (e1 # rs) \<le> maxRetries"
      using rs(3) by simp
    have 4: "\<forall>x \<in> set (butlast (e0 # e1 # rs)). x \<noteq> None"
      using rs(4) Some by simp
    have 5: "last (e0 # e1 # rs) = last (e1 # rs)"
      by simp
    have 6: "last (e1 # rs) \<noteq> None \<longrightarrow> retryCount + length (e1 # rs) = maxRetries"
      using rs(7) by simp
    show ?thesis
      apply (rule exI [of _ "e1 # rs"])
      unfolding 5
      using 1 2 3 4 6 rs(5,6) by (intro conjI)
  qed
qed

lemma backoff_sum:
  "sum_list (map (\<lambda>k. a * 2 ^ k) [0 ..< n]) = a * (2 ^ n - 1)" for a :: int
  by (induction n) (simp_all add: algebra_simps)

text \<open>
  C4.  \<open>mmapOpenWithRetry\<close> opens the file once and then again after each failure, at
  most \<open>maxRetries\<close> = 8 more times: every open but the last one failed.  Before the
  retry number k + 1 it sleeps 10ms * 2^k, so the sleeps are 10ms, 20ms, ... and
  add up to 2550ms at most.  If the last open succeeded, the reader comes back with
  no error.  If it failed, all 1 + 8 opens failed, and the error that comes back is
  the errno of the last open wrapped with \<open>mmap() error\<close>, with no reader.
\<close>

theorem mmapOpenWithRetry_backoff:
  "\<exists>opens.
      mmap_open_calls (trace (snd (mmapOpenWithRetry c path w))) = mmap_open_calls (trace w) @ opens
    \<and> opens \<noteq> [] \<and> length opens \<le> 1 + maxRetries \<and> maxRetries = 8
    \<and> (\<forall>r \<in> set (butlast opens). r \<noteq> None)
    \<and> sleep_calls (trace (snd (mmapOpenWithRetry c path w)))
        = sleep_calls (trace w) @ map (\<lambda>k. 10 * Millisecond * 2 ^ k) [0 ..< length opens - 1]
    \<and> sum_list (map (\<lambda>k. 10 * Millisecond * 2 ^ k) [0 ..< length opens - 1]) \<le> 2550 * Millisecond
    \<and> (case last opens of
          None \<Rightarrow> (\<exists>f. fst (mmapOpenWithRetry c path w) = (Some f, None))
        | Some e \<Rightarrow> length opens = 1 + maxRetries
            \<and> fst (mmapOpenWithRetry c path w) = (None, Some (Wrap (OsErr e) ''mmap() error'')))"
proof -
  obtain f0 err0 w1 where op: "mmap_Open path w = ((f0, err0), w1)"
    by (metis prod.exhaust)
  from mmap_Open_calls [OF op] obtain e0 where e0:
    "mmap_open_calls (trace w1) = mmap_open_calls (trace w) @ [e0]"
    "sleep_calls (trace w1) = sleep_calls (trace w)"
    "err0 = map_option OsErr e0" "(e0 = None) = (f0 \<noteq> None)"
    by blast
  obtain f err w2 where lp: "mmap_retry_loop path (f0, err0) startingDelay 0 w1 = ((f, err), w2)"
    by (metis prod.exhaust)
  have res: "mmapOpenWithRetry c path w = ((f, errors_Wrap err ''mmap() error''), w2)"
    by (simp add: mmapOpenWithRetry_def op lp)
  have "\<exists>rs. mmap_open_calls (trace w2) = mmap_open_calls (trace w1) @ rs
      \<and> sleep_calls (trace w2)
          = sleep_calls (trace w1) @ map (\<lambda>k. startingDelay * 2 ^ k) [0 ..< 0 + length rs]
      \<and> 0 + length rs \<le> maxRetries
      \<and> (\<forall>x \<in> set (butlast (e0 # rs)). x \<noteq> None)
      \<and> snd (f, err) = map_option OsErr (last (e0 # rs))
      \<and> (last (e0 # rs) = None) = (fst (f, err) \<noteq> None)
      \<and> (last (e0 # rs) \<noteq> None \<longrightarrow> 0 + length rs = maxRetries)"
    using e0(3,4) by (intro mmap_retry_loop_inv [OF refl _ _ _ _ lp]) simp_all
  then obtain rs where rs0:
    "mmap_open_calls (trace w2) = mmap_open_calls (trace w1) @ rs
      \<and> sleep_calls (trace w2)
          = sleep_calls (trace w1) @ map (\<lambda>k. startingDelay * 2 ^ k) [0 ..< 0 + length rs]
      \<and> 0 + length rs \<le> maxRetries
      \<and> (\<forall>x \<in> set (butlast (e0 # rs)). x \<noteq> None)
      \<and> snd (f, err) = map_option OsErr (last (e0 # rs))
      \<and> (last (e0 # rs) = None) = (fst (f, err) \<noteq> None)
      \<and> (last (e0 # rs) \<noteq> None \<longrightarrow> 0 + length rs = maxRetries)"
    ..
  have rs:
    "mmap_open_calls (trace w2) = mmap_open_calls (trace w1) @ rs"
    "sleep_calls (trace w2)
          = sleep_calls (trace w1) @ map (\<lambda>k. startingDelay * 2 ^ k) [0 ..< 0 + length rs]"
    "0 + length rs \<le> maxRetries"
    "\<forall>x \<in> set (butlast (e0 # rs)). x \<noteq> None"
    "snd (f, err) = map_option OsErr (last (e0 # rs))"
    "(last (e0 # rs) = None) = (fst (f, err) \<noteq> None)"
    "last (e0 # rs) \<noteq> None \<longrightarrow> 0 + length rs = maxRetries"
    using rs0 by - ((elim conjE, assumption)+)
  let ?opens = "e0 # rs"
  have 1: "mmap_open_calls (trace (snd (mmapOpenWithRetry c path w))) = mmap_open_calls (trace w) @ ?opens"
    using rs(1) e0(1) by (simp add: res)
  have 2: "?opens \<noteq> []" "length ?opens \<le> 1 + maxRetries" "maxRetries = 8"
    using rs(3) by (simp_all add: maxRetries_def)
  have 3: "sleep_calls (trace (snd (mmapOpenWithRetry c path w)))
        = sleep_calls (trace w) @ map (\<lambda>k. 10 * Millisecond * 2 ^ k) [0 ..< length ?opens - 1]"
    using rs(2) e0(2) by (simp add: res startingDelay_def)
  have "(2::int) ^ length rs \<le> 2 ^ 8"
    using rs(3) by (intro power_increasing) (auto simp: maxRetries_def)
  then have 4: "sum_list (map (\<lambda>k. 10 * Millisecond * 2 ^ k) [0 ..< length ?opens - 1]) \<le> 2550 * Millisecond"
    by (simp add: backoff_sum Millisecond_def)
  have 5: "case last ?opens of
          None \<Rightarrow> (\<exists>f. fst (mmapOpenWithRetry c path w) = (Some f, None))
        | Some e \<Rightarrow> length ?opens = 1 + maxRetries
            \<and> fst (mmapOpenWithRetry c path w) = (None, Some (Wrap (OsErr e) ''mmap() error''))"
  proof (cases "last ?opens")
    case None
    with rs(5,6) show ?thesis
      by (auto simp: res errors_Wrap_def)
  next
    case (Some e)
    with rs(5,6,7) show ?thesis
      by (auto simp: res errors_Wrap_def)
  qed
  show ?thesis
    using 1 2 rs(4) 3 4 5 by (intro exI [of _ ?opens] conjI)
qed

lemmas mmap_run_defs =
  mmapOpenWithRetry_def mmap_Open_def mmap_retry_loop.simps env_step_def lookup_def emit_def
  time_Sleep_def log_Debugf_def errors_Wrap_def int64_def startingDelay_def maxRetries_def
  Millisecond_def Let_def

theorem mmapOpenWithRetry_backoff_witness:
  "fst (mmapOpenWithRetry \<lparr>dirname = ''cache'', timeNow = (\<lambda>w. 0), v1PerContentOverhead = 0\<rparr>
         (''cache'', ''a.sndx'')
         \<lparr>fs = (\<lambda>d. None)(''cache'' \<mapsto> []), clock = 0, rand = 0, script = [], trace = []\<rparr>)
     = (None, Some (Wrap (OsErr ENOENT) ''mmap() error''))
   \<and> sleep_calls (trace (snd (mmapOpenWithRetry
         \<lparr>dirname = ''cache'', timeNow = (\<lambda>w. 0), v1PerContentOverhead = 0\<rparr>
         (''cache'', ''a.sndx'')
         \<lparr>fs = (\<lambda>d. None)(''cache'' \<mapsto> []), clock = 0, rand = 0, script = [], trace = []\<rparr>)))
     = [10000000, 20000000, 40000000, 80000000, 160000000, 320000000, 640000000, 1280000000]
   \<and> fst (mmapOpenWithRetry \<lparr>dirname = ''cache'', timeNow = (\<lambda>w. 0), v1PerContentOverhead = 0\<rparr>
         (''cache'', ''a.sndx'')
         \<lparr>fs = (\<lambda>d. None)(''cache'' \<mapsto> []), clock = 0, rand = 0,
          script = [([], None), ([], Some EACCES), ([], None), ([Publish (''cache'', ''a.sndx'') [1]], None)],
          trace = []\<rparr>)
     = (Some [1], None)"
proof -
  let ?c = "\<lparr>dirname = ''cache'', timeNow = (\<lambda>w. 0), v1PerContentOverhead = 0\<rparr>"
  let ?p = "(''cache'', ''a.sndx'')"
  let ?u = "\<lparr>fs = (\<lambda>d. None)(''cache'' \<mapsto> []), clock = 0, rand = 0, script = [], trace = []\<rparr>"
  let ?v = "\<lparr>fs = (\<lambda>d. None)(''cache'' \<mapsto> []), clock = 0, rand = 0,
          script = [([], None), ([], Some EACCES), ([], None), ([Publish (''cache'', ''a.sndx'') [1]], None)],
          trace = []\<rparr>"
  have u: "mmap_open_calls (trace (snd (mmapOpenWithRetry ?c ?p ?u))) = replicate 9 (Some ENOENT)"
    by (simp add: mmap_run_defs eval_nat_numeral)
  have v: "mmap_open_calls (trace (snd (mmapOpenWithRetry ?c ?p ?v)))
      = [Some ENOENT, Some EACCES, Some ENOENT, None]"
    "fst (fst (mmapOpenWithRetry ?c ?p ?v)) = Some [1]"
    by (simp_all add: mmap_run_defs)
  from mmapOpenWithRetry_backoff [of ?c ?p ?u] obtain ou where ou0:
    "mmap_open_calls (trace (snd (mmapOpenWithRetry ?c ?p ?u))) = mmap_open_calls (trace ?u) @ ou
    \<and> ou \<noteq> [] \<and> length ou \<le> 1 + maxRetries \<and> maxRetries = 8
    \<and> (\<forall>r \<in> set (butlast ou). r \<noteq> None)
    \<and> sleep_calls (trace (snd (mmapOpenWithRetry ?c ?p ?u)))
        = sleep_calls (trace ?u) @ map (\<lambda>k. 10 * Millisecond * 2 ^ k) [0 ..< length ou - 1]
    \<and> sum_list (map (\<lambda>k. 10 * Millisecond * 2 ^ k) [0 ..< length ou - 1]) \<le> 2550 * Millisecond
    \<and> (case last ou of
          None \<Rightarrow> (\<exists>f. fst (mmapOpenWithRetry ?c ?p ?u) = (Some f, None))
        | Some e \<Rightarrow> length ou = 1 + maxRetries
            \<and> fst (mmapOpenWithRetry ?c ?p ?u) = (None, Some (Wrap (OsErr e) ''mmap() error'')))"
    ..
  from ou0 u have ou: "ou = replicate 9 (Some ENOENT)"
    by simp
  have 1: "fst (mmapOpenWithRetry ?c ?p ?u) = (None, Some (Wrap (OsErr ENOENT) ''mmap() error''))"
    using ou0 unfolding ou by (simp add: eval_nat_numeral)
  have 2: "sleep_calls (trace (snd (mmapOpenWithRetry ?c ?p ?u)))
     = [10000000, 20000000, 40000000, 80000000, 160000000, 320000000, 640000000, 1280000000]"
    using ou0 unfolding ou by (simp add: eval_nat_numeral Millisecond_def upt_rec)
  from mmapOpenWithRetry_backoff [of ?c ?p ?v] obtain ov where ov0:
    "mmap_open_calls (trace (snd (mmapOpenWithRetry ?c ?p ?v))) = mmap_open_calls (trace ?v) @ ov
    \<and> ov \<noteq> [] \<and> length ov \<le> 1 + maxRetries \<and> maxRetries = 8
    \<and> (\<forall>r \<in> set (butlast ov). r \<noteq> None)
    \<and> sleep_calls (trace (snd (mmapOpenWithRetry ?c ?p ?v)))
        = sleep_calls (trace ?v) @ map (\<lambda>k. 10 * Millisecond * 2 ^ k) [0 ..< length ov - 1]
    \<and> sum_list (map (\<lambda>k. 10 * Millisecond * 2 ^ k) [0 ..< length ov - 1]) \<le> 2550 * Millisecond
    \<and> (case last ov of
          None \<Rightarrow> (\<exists>f. fst (mmapOpenWithRetry ?c ?p ?v) = (Some f, None))
        | Some e \<Rightarrow> length ov = 1 + maxRetries
            \<and> fst (mmapOpenWithRetry ?c ?p ?v) = (None, Some (Wrap (OsErr e) ''mmap() error'')))"
    ..
  from ov0 v(1) have ov: "ov = [Some ENOENT, Some EACCES, Some ENOENT, None]"
    by simp
  have 3: "fst (mmapOpenWithRetry ?c ?p ?v) = (Some [1], None)"
    using ov0 v(2) unfolding ov by auto
  show ?thesis
    using 1 2 3 by simp
qed

section \<open>Expiring unused index blobs\<close>

lemma HasSuffix_iff: "strings_HasSuffix s suf \<longleftrightarrow> (\<exists>p. s = p @ suf)"
proof
  assume "strings_HasSuffix s suf"
  then have "s = take (length s - length suf) s @ suf"
    by (metis append_take_drop_id strings_HasSuffix_def)
  then show "\<exists>p. s = p @ suf" ..
next
  assume "\<exists>p. s = p @ suf"
  then show "strings_HasSuffix s suf"
    by (auto simp: strings_HasSuffix_def)
qed

lemma HasSuffix_append [simp]: "strings_HasSuffix (p @ suf) suf"
  by (auto simp: HasSuffix_iff)

lemma TrimSuffix_append [simp]: "strings_TrimSuffix (p @ suf) suf = p"
  by (simp add: strings_TrimSuffix_def)

lemma TrimSuffix_inverse:
  "strings_HasSuffix s suf \<Longrightarrow> strings_TrimSuffix s suf @ suf = s"
  by (auto simp: HasSuffix_iff)

lemma set_update_cases:
  "(a, b) \<in> set (AList.update k v al) \<Longrightarrow> (a, b) = (k, v) \<or> (a, b) \<in> set al"
  by (induction al) (auto split: if_splits)

lemma delete_filter: "AList.delete k al = filter (\<lambda>(k', v). k' \<noteq> k) al"
  by (induction al) auto

text \<open>What the first two loops of \<open>expireUnused\<close> leave in \<open>remaining\<close>.\<close>

lemma collect_remaining_inv:
  "\<forall>(k, v) \<in> set remaining. strings_HasSuffix (Name v) simpleIndexSuffix
        \<and> k = strings_TrimSuffix (Name v) simpleIndexSuffix \<Longrightarrow>
   \<forall>(k, v) \<in> set (collect_remaining entries remaining).
      strings_HasSuffix (Name v) simpleIndexSuffix \<and> k = strings_TrimSuffix (Name v) simpleIndexSuffix"
proof (induction entries arbitrary: remaining)
  case Nil
  then show ?case by simp
next
  case (Cons ent entries)
  show ?case
  proof (cases "strings_HasSuffix (Name ent) simpleIndexSuffix")
    case True
    have "\<forall>(k, v) \<in> set (AList.update (strings_TrimSuffix (Name ent) simpleIndexSuffix) ent remaining).
        strings_HasSuffix (Name v) simpleIndexSuffix \<and> k = strings_TrimSuffix (Name v) simpleIndexSuffix"
      using Cons.prems True by (auto dest!: set_update_cases)
    from Cons.IH [OF this] True show ?thesis
      by (simp add: Let_def)
  next
    case False
    with Cons show ?thesis by simp
  qed
qed

lemma delete_used_eq: "delete_used used remaining = filter (\<lambda>(k, v). k \<notin> set used) remaining"
proof (induction used arbitrary: remaining)
  case Nil
  then show ?case by simp
next
  case (Cons u used)
  then show ?case
    by (auto simp: delete_filter intro!: filter_cong)
qed

lemma remaining_candidates:
  "\<forall>rem \<in> set (map snd (delete_used used (collect_remaining entries []))). candidate used (Name rem)"
  using collect_remaining_inv [of "[]" entries]
  by (auto simp: delete_used_eq candidate_def)

lemma update_fresh: "k \<notin> fst ` set al \<Longrightarrow> AList.update k v al = al @ [(k, v)]"
  by (induction al) auto

lemma collect_remaining_distinct:
  "distinct (map fst remaining @ map (\<lambda>e. strings_TrimSuffix (Name e) simpleIndexSuffix)
      (filter (\<lambda>e. strings_HasSuffix (Name e) simpleIndexSuffix) entries)) \<Longrightarrow>
   collect_remaining entries remaining
     = remaining @ map (\<lambda>e. (strings_TrimSuffix (Name e) simpleIndexSuffix, e))
         (filter (\<lambda>e. strings_HasSuffix (Name e) simpleIndexSuffix) entries)"
proof (induction entries arbitrary: remaining)
  case Nil
  then show ?case by simp
next
  case (Cons ent entries)
  show ?case
  proof (cases "strings_HasSuffix (Name ent) simpleIndexSuffix")
    case True
    let ?k = "strings_TrimSuffix (Name ent) simpleIndexSuffix"
    have fresh: "?k \<notin> fst ` set remaining"
      using Cons.prems True by auto
    have "distinct (map fst (remaining @ [(?k, ent)]) @ map (\<lambda>e. strings_TrimSuffix (Name e) simpleIndexSuffix)
      (filter (\<lambda>e. strings_HasSuffix (Name e) simpleIndexSuffix) entries))"
      using Cons.prems True by auto
    from Cons.IH [OF this] True fresh show ?thesis
      by (simp add: Let_def update_fresh)
  next
    case False
    with Cons show ?thesis by simp
  qed
qed

lemma TrimSuffix_inj:
  "strings_HasSuffix a suf \<Longrightarrow> strings_HasSuffix b suf \<Longrightarrow>
   strings_TrimSuffix a suf = strings_TrimSuffix b suf \<Longrightarrow> a = b"
  by (metis TrimSuffix_inverse)

lemma remaining_filter:
  assumes "distinct (map Name entries)"
  shows "map snd (delete_used used (collect_remaining entries []))
           = filter (\<lambda>e. candidate used (Name e)) entries"
proof -
  let ?S = "filter (\<lambda>e. strings_HasSuffix (Name e) simpleIndexSuffix) entries"
  have "distinct (map Name ?S)"
    using assms by (simp add: distinct_map_filter)
  then have "distinct (map (\<lambda>e. strings_TrimSuffix (Name e) simpleIndexSuffix) ?S)"
    by (auto simp: distinct_map inj_on_def dest: TrimSuffix_inj)
  then have "collect_remaining entries []
      = map (\<lambda>e. (strings_TrimSuffix (Name e) simpleIndexSuffix, e)) ?S"
    using collect_remaining_distinct [of "[]" entries] by simp
  then show ?thesis
    by (simp add: delete_used_eq filter_map comp_def candidate_def conj_commute)
qed

lemma remove_calls_append [simp]: "remove_calls (xs @ ys) = remove_calls xs @ remove_calls ys"
  by (induction xs rule: remove_calls.induct) auto

lemma error_logs_append [simp]: "error_logs (xs @ ys) = error_logs xs @ error_logs ys"
  by (induction xs rule: error_logs.induct) auto

lemma visits_append [simp]: "visits (xs @ ys) = visits xs @ visits ys"
  by (induction xs rule: visits.induct) auto

lemma time_Sub_old:
  "time_Sub now t > unusedCommittedContentIndexCleanupTime \<longleftrightarrow> old_enough now t"
  by (auto simp: time_Sub_def unusedCommittedContentIndexCleanupTime_def Hour_def Second_def
      Millisecond_def maxDuration_def minDuration_def old_enough_def Let_def)

lemma env_step_no_racers:
  "no_racers w \<Longrightarrow> fs (snd (env_step w)) = fs w \<and> no_racers (snd (env_step w))"
  by (auto simp: no_racers_def env_step_def split: list.splits)

lemma env_step_other:
  "clock (snd (env_step w)) = clock w \<and> rand (snd (env_step w)) = rand w
   \<and> script (snd (env_step w)) = tl (script w)"
  by (auto simp: env_step_def split: list.splits)

lemma os_Remove_trace:
  "os_Remove p w = (err, w') \<Longrightarrow>
   \<exists>r. trace w' = trace w @ [Sys (Remove p) r] \<and> err = map_option OsErr r
     \<and> (no_racers w \<longrightarrow> no_racers w'
          \<and> (\<forall>q. lookup q (fs w') = (if q = p \<and> r = None then None else lookup q (fs w))))"
  using trace_env_step [of w] env_step_no_racers [of w]
  by (auto simp: os_Remove_def emit_def Let_def lookup_del_file no_racers_def
      split: prod.splits option.splits)

text \<open>One pass of the last loop of \<open>expireUnused\<close>, whatever fails.\<close>

lemma expire_remaining_trace:
  "\<exists>rs. remove_calls (trace (expire_remaining c rems w)) = remove_calls (trace w) @ rs
     \<and> fst ` set rs \<subseteq> (\<lambda>rem. filepath_Join (dirname c) (Name rem)) ` set rems
     \<and> error_logs (trace (expire_remaining c rems w))
         = error_logs (trace w)
           @ map (\<lambda>e. (''unable to remove unused index file: %v'', [AErr (OsErr e)]))
               (List.map_filter snd rs)
     \<and> visits (trace (expire_remaining c rems w)) = visits (trace w) @ map Name rems
     \<and> (no_racers w \<longrightarrow> no_racers (expire_remaining c rems w)
          \<and> (\<forall>q. lookup q (fs (expire_remaining c rems w))
                 = (if (q, None) \<in> set rs then None else lookup q (fs w))))"
proof (induction rems arbitrary: w)
  case Nil
  show ?case
    by (intro exI [of _ "[]"]) (simp add: List.map_filter_simps)
next
  case (Cons rem rems)
  let ?p = "filepath_Join (dirname c) (Name rem)"
  let ?w1 = "log_Debugf ''removing unused %v %v'' [AStr (Name rem), ATime (ModTime rem)] w"
  let ?step = "if time_Sub (timeNow c w) (ModTime rem) > unusedCommittedContentIndexCleanupTime
        then (let (err, w2) = os_Remove ?p ?w1
              in case err of
                   Some e \<Rightarrow> log_Errorf ''unable to remove unused index file: %v'' [AErr e] w2
                 | None \<Rightarrow> w2)
        else log_Debugf ''keeping unused %v because it's too new %v''
               [AStr (Name rem), ATime (ModTime rem)] w"
  have step: "\<exists>rs. remove_calls (trace ?step) = remove_calls (trace w) @ rs
     \<and> fst ` set rs \<subseteq> {?p}
     \<and> error_logs (trace ?step)
         = error_logs (trace w)
           @ map (\<lambda>e. (''unable to remove unused index file: %v'', [AErr (OsErr e)]))
               (List.map_filter snd rs)
     \<and> visits (trace ?step) = visits (trace w) @ [Name rem]
     \<and> (no_racers w \<longrightarrow> no_racers ?step
          \<and> (\<forall>q. lookup q (fs ?step) = (if (q, None) \<in> set rs then None else lookup q (fs w))))"
  proof (cases "time_Sub (timeNow c w) (ModTime rem) > unusedCommittedContentIndexCleanupTime")
    case False
    then show ?thesis
      by (intro exI [of _ "[]"]) (simp add: log_Debugf_def emit_def List.map_filter_simps no_racers_def)
  next
    case True
    obtain err w2 where rm: "os_Remove ?p ?w1 = (err, w2)"
      by (metis prod.exhaust)
    from os_Remove_trace [OF rm] obtain r where r:
      "trace w2 = trace ?w1 @ [Sys (Remove ?p) r]" "err = map_option OsErr r"
      "no_racers ?w1 \<longrightarrow> no_racers w2
          \<and> (\<forall>q. lookup q (fs w2) = (if q = ?p \<and> r = None then None else lookup q (fs ?w1)))"
      by blast
    have w1: "no_racers ?w1 = no_racers w" "fs ?w1 = fs w"
      by (simp_all add: log_Debugf_def emit_def no_racers_def)
    show ?thesis
      using True rm r w1
      by (intro exI [of _ "[(?p, r)]"])
         (cases r; simp add: log_Debugf_def log_Errorf_def emit_def List.map_filter_simps no_racers_def)
  qed
  then obtain r1 where r1:
    "remove_calls (trace ?step) = remove_calls (trace w) @ r1
     \<and> fst ` set r1 \<subseteq> {?p}
     \<and> error_logs (trace ?step)
         = error_logs (trace w)
           @ map (\<lambda>e. (''unable to remove unused index file: %v'', [AErr (OsErr e)]))
               (List.map_filter snd r1)
     \<and> visits (trace ?step) = visits (trace w) @ [Name rem]
     \<and> (no_racers w \<longrightarrow> no_racers ?step
          \<and> (\<forall>q. lookup q (fs ?step) = (if (q, None) \<in> set r1 then None else lookup q (fs w))))"
    ..
  from Cons.IH [of ?step] obtain r2 where r2:
    "remove_calls (trace (expire_remaining c rems ?step)) = remove_calls (trace ?step) @ r2
     \<and> fst ` set r2 \<subseteq> (\<lambda>rem. filepath_Join (dirname c) (Name rem)) ` set rems
     \<and> error_logs (trace (expire_remaining c rems ?step))
         = error_logs (trace ?step)
           @ map (\<lambda>e. (''unable to remove unused index file: %v'', [AErr (OsErr e)]))
               (List.map_filter snd r2)
     \<and> visits (trace (expire_remaining c rems ?step)) = visits (trace ?step) @ map Name rems
     \<and> (no_racers ?step \<longrightarrow> no_racers (expire_remaining c rems ?step)
          \<and> (\<forall>q. lookup q (fs (expire_remaining c rems ?step))
                 = (if (q, None) \<in> set r2 then None else lookup q (fs ?step))))"
    ..
  have unf: "expire_remaining c (rem # rems) w = expire_remaining c rems ?step"
    by simp
  have mf: "List.map_filter snd (r1 @ r2) = List.map_filter snd r1 @ List.map_filter snd r2"
    by (simp add: List.map_filter_def)
  show ?case
    unfolding unf
    apply (rule exI [of _ "r1 @ r2"])
    unfolding mf
    using r1 r2 by auto
qed

lemma os_Remove_quiet:
  "script w = [] \<Longrightarrow>
   script (snd (os_Remove p w)) = []
   \<and> (\<forall>q. lookup q (fs (snd (os_Remove p w))) = (if q = p then None else lookup q (fs w)))"
  by (auto simp: os_Remove_def env_step_quiet emit_def lookup_del_file split: option.splits)

lemma expire_remaining_quiet:
  assumes "\<forall>v. timeNow c v = now"
  shows "script w = [] \<Longrightarrow>
    script (expire_remaining c rems w) = []
    \<and> (\<forall>q. lookup q (fs (expire_remaining c rems w))
          = (if q \<in> (\<lambda>rem. filepath_Join (dirname c) (Name rem))
                      ` {rem \<in> set rems. old_enough now (ModTime rem)}
             then None else lookup q (fs w)))"
proof (induction rems arbitrary: w)
  case Nil
  then show ?case by simp
next
  case (Cons rem rems)
  let ?p = "filepath_Join (dirname c) (Name rem)"
  let ?w1 = "log_Debugf ''removing unused %v %v'' [AStr (Name rem), ATime (ModTime rem)] w"
  show ?case
  proof (cases "old_enough now (ModTime rem)")
    case True
    let ?w2 = "snd (os_Remove ?p ?w1)"
    let ?step = "case fst (os_Remove ?p ?w1) of
                   Some e \<Rightarrow> log_Errorf ''unable to remove unused index file: %v'' [AErr e] ?w2
                 | None \<Rightarrow> ?w2"
    have q1: "script ?w1 = []" "fs ?w1 = fs w"
      using Cons.prems by (simp_all add: log_Debugf_def emit_def)
    from os_Remove_quiet [OF q1(1), of ?p]
    have st: "script ?step = []"
      "\<forall>q. lookup q (fs ?step) = (if q = ?p then None else lookup q (fs w))"
      by (auto simp: q1 log_Errorf_def emit_def filepath_Join_def split: option.splits)
    have unf: "expire_remaining c (rem # rems) w = expire_remaining c rems ?step"
      using True assms by (simp add: time_Sub_old case_prod_beta Let_def)
    from Cons.IH [OF st(1)] st(2) True show ?thesis
      unfolding unf by auto
  next
    case False
    let ?step = "log_Debugf ''keeping unused %v because it's too new %v''
               [AStr (Name rem), ATime (ModTime rem)] w"
    have st: "script ?step = []" "fs ?step = fs w"
      using Cons.prems by (simp_all add: log_Debugf_def emit_def)
    have unf: "expire_remaining c (rem # rems) w = expire_remaining c rems ?step"
      using False assms by (simp add: time_Sub_old)
    from Cons.IH [OF st(1)] st(2) False show ?thesis
      unfolding unf by auto
  qed
qed

lemma ioutil_ReadDir_effect:
  "ioutil_ReadDir d w = (r, w') \<Longrightarrow>
   (\<exists>e. trace w' = trace w @ [Sys (ReadDir d) e])
   \<and> fs w' = fs (snd (env_step w)) \<and> script w' = tl (script w)
   \<and> (no_racers w \<longrightarrow> no_racers w')
   \<and> (case r of
         Inl err \<Rightarrow> \<exists>e. err = OsErr e
       | Inr entries \<Rightarrow>
           \<exists>ents. fs w' d = Some ents
             \<and> entries = map (\<lambda>(n, f). \<lparr>Name = n, ModTime = modtime f\<rparr>) ents)"
  using trace_env_step [of w] env_step_no_racers [of w] env_step_other [of w]
  by (auto simp: ioutil_ReadDir_def emit_def Let_def no_racers_def
      split: prod.splits option.splits)

lemma show_nat_last: "show_nat k \<noteq> [] \<and> last (show_nat k) \<in> set ''0123456789''"
proof -
  have d: "digit_char n \<in> set ''0123456789''" if "n < 10" for n
    unfolding digit_char_def using that by (intro nth_mem) simp
  show ?thesis
    by (subst (1 2) show_nat.simps) (use d in auto)
qed

lemma temp_name_no_suffix: "\<not> strings_HasSuffix (pat @ show_nat k) simpleIndexSuffix"
proof
  assume "strings_HasSuffix (pat @ show_nat k) simpleIndexSuffix"
  then obtain p where "pat @ show_nat k = p @ ''.sndx''"
    by (auto simp: HasSuffix_iff simpleIndexSuffix_def)
  then have "last (pat @ show_nat k) = CHR ''x''"
    by simp
  with show_nat_last [of k] show False
    by auto
qed

lemma create_temp_try_name:
  "create_temp_try d pat n w = (Inr name, w') \<Longrightarrow> \<exists>k. name = pat @ show_nat k"
proof (induction d pat n w rule: create_temp_try.induct)
  case (1 d pattern tries w)
  show ?case
  proof (cases "fs w d")
    case None
    with "1.prems" show ?thesis
      by (subst (asm) create_temp_try.simps) (simp add: Let_def)
  next
    case (Some ents)
    show ?thesis
    proof (cases "map_of ents (pattern @ show_nat (rand w))")
      case None
      with "1.prems" Some show ?thesis
        by (subst (asm) create_temp_try.simps) (auto simp: Let_def)
    next
      case f: (Some f)
      show ?thesis
      proof (cases "Suc tries < 10000")
        case True
        with "1.prems" Some f
        have "create_temp_try d pattern (Suc tries) (w\<lparr>rand := Suc (rand w)\<rparr>) = (Inr name, w')"
          by (subst (asm) create_temp_try.simps) (simp add: Let_def)
        from "1.IH" [OF refl refl Some f True this] show ?thesis .
      next
        case False
        with "1.prems" Some f show ?thesis
          by (subst (asm) create_temp_try.simps) (simp add: Let_def)
      qed
    qed
  qed
qed

lemma os_CreateTemp_name:
  "os_CreateTemp d pat w = (Inr tf, w') \<Longrightarrow> \<exists>k. tf = (d, pat @ show_nat k)"
  by (auto simp: os_CreateTemp_def Let_def filepath_Join_def dest: create_temp_try_name
      split: prod.splits option.splits sum.splits)

lemma writeTempFileAtomic_name:
  "fst (writeTempFileAtomic d data w) = Inr tf \<Longrightarrow> \<exists>k. tf = (d, ''tmp'' @ show_nat k)"
  unfolding writeTempFileAtomic_def
  by (auto simp: Let_def dest!: os_CreateTemp_name
      split: prod.splits sum.splits option.splits if_splits)

lemmas expire_run_defs =
  expireUnused_def ioutil_ReadDir_def os_Remove_def env_step_def lookup_def del_file_def
  emit_def log_Debugf_def log_Errorf_def filepath_Join_def indexBlobPath_def
  simpleIndexSuffix_def strings_HasSuffix_def strings_TrimSuffix_def time_Sub_def
  unusedCommittedContentIndexCleanupTime_def Hour_def Second_def Millisecond_def
  maxDuration_def minDuration_def no_racers_def Let_def

lemma expireUnused_removes:
  "\<exists>rs. remove_calls (trace (snd (expireUnused c used w))) = remove_calls (trace w) @ rs
     \<and> (\<forall>(p, r) \<in> set rs. \<exists>n. p = (dirname c, n) \<and> candidate used n)"
proof -
  let ?w0 = "log_Debugf ''expireUnused (except %v)'' [AStrs used] w"
  obtain r w1 where rd: "ioutil_ReadDir (dirname c) ?w0 = (r, w1)"
    by (metis prod.exhaust)
  from ioutil_ReadDir_effect [OF rd] have tr: "remove_calls (trace w1) = remove_calls (trace w)"
    by (auto simp: log_Debugf_def emit_def)
  show ?thesis
  proof (cases r)
    case (Inl err)
    then show ?thesis
      using rd tr by (intro exI [of _ "[]"]) (simp add: expireUnused_def)
  next
    case (Inr entries)
    let ?rems = "map snd (delete_used used (collect_remaining entries []))"
    from expire_remaining_trace [of c ?rems w1] obtain rs where rs:
      "remove_calls (trace (expire_remaining c ?rems w1)) = remove_calls (trace w1) @ rs"
      "fst ` set rs \<subseteq> (\<lambda>rem. filepath_Join (dirname c) (Name rem)) ` set ?rems"
      by blast
    have "\<exists>n. p = (dirname c, n) \<and> candidate used n" if "(p, r') \<in> set rs" for p r'
    proof -
      from that rs(2) obtain rem where "rem \<in> set ?rems" "p = filepath_Join (dirname c) (Name rem)"
        by force
      with remaining_candidates [of used entries] show ?thesis
        by (auto simp: filepath_Join_def)
    qed
    then show ?thesis
      using rd Inr rs(1) tr
      by (intro exI [of _ rs]) (auto simp: expireUnused_def Let_def)
  qed
qed

lemma map_of_info:
  "distinct (map fst ents) \<Longrightarrow>
   (\<exists>rem \<in> set (map (\<lambda>(n, f). \<lparr>Name = n, ModTime = modtime f\<rparr>) ents). Name rem = n \<and> P (ModTime rem))
     \<longleftrightarrow> (\<exists>f. map_of ents n = Some f \<and> P (modtime f))"
proof -
  assume d: "distinct (map fst ents)"
  have "(\<exists>rem \<in> set (map (\<lambda>(n, f). \<lparr>Name = n, ModTime = modtime f\<rparr>) ents). Name rem = n \<and> P (ModTime rem))
      \<longleftrightarrow> (\<exists>f. (n, f) \<in> set ents \<and> P (modtime f))"
    by (induction ents) auto
  then show ?thesis
    by (simp add: map_of_eq_Some_iff [OF d])
qed

text \<open>
  C3.  Every file \<open>expireUnused\<close> removes, or tries to, is in its directory, has the
  suffix of committed indexes, and has an identifier that is not in the used set:
  no file of a used identifier is ever removed, whatever its age.  When nothing
  interferes or fails, the time source stands at \<open>now\<close> and the directory is there,
  the call returns no error and the files of the directory afterwards are those of
  before, less exactly the ones with the suffix, an unused identifier and a
  modification time more than one hour (3600 * 10^9 nanoseconds) before \<open>now\<close>: a
  file not older than that stays, used or not.
\<close>

theorem expireUnused_removes_old_unused:
  "(\<exists>rs. remove_calls (trace (snd (expireUnused c used w))) = remove_calls (trace w) @ rs
      \<and> (\<forall>(p, r) \<in> set rs. \<exists>n. p = (dirname c, n) \<and> strings_HasSuffix n simpleIndexSuffix
            \<and> strings_TrimSuffix n simpleIndexSuffix \<notin> set used)
      \<and> (\<forall>i \<in> set used. \<forall>r. (indexBlobPath c i, r) \<notin> set rs))
   \<and> (script w = [] \<and> (\<forall>v. timeNow c v = now) \<and> fs w (dirname c) = Some ents
        \<and> distinct (map fst ents) \<longrightarrow>
       fst (expireUnused c used w) = None
       \<and> (\<forall>n. lookup (dirname c, n) (fs (snd (expireUnused c used w)))
             = (case map_of ents n of
                  None \<Rightarrow> None
                | Some f \<Rightarrow>
                    if strings_HasSuffix n simpleIndexSuffix
                       \<and> strings_TrimSuffix n simpleIndexSuffix \<notin> set used
                       \<and> now - modtime f > 3600 * 1000000000
                    then None else Some f)))"
proof (intro conjI impI)
  from expireUnused_removes [of c used w] obtain rs where rs:
    "remove_calls (trace (snd (expireUnused c used w))) = remove_calls (trace w) @ rs"
    "\<forall>(p, r) \<in> set rs. \<exists>n. p = (dirname c, n) \<and> candidate used n"
    by blast
  have "(indexBlobPath c i, r) \<notin> set rs" if "i \<in> set used" for i r
    using rs(2) that by (auto simp: candidate_def indexBlobPath_def filepath_Join_def)
  with rs show "\<exists>rs. remove_calls (trace (snd (expireUnused c used w))) = remove_calls (trace w) @ rs
      \<and> (\<forall>(p, r) \<in> set rs. \<exists>n. p = (dirname c, n) \<and> strings_HasSuffix n simpleIndexSuffix
            \<and> strings_TrimSuffix n simpleIndexSuffix \<notin> set used)
      \<and> (\<forall>i \<in> set used. \<forall>r. (indexBlobPath c i, r) \<notin> set rs)"
    by (intro exI [of _ rs]) (auto simp: candidate_def)
next
  assume h: "script w = [] \<and> (\<forall>v. timeNow c v = now) \<and> fs w (dirname c) = Some ents
        \<and> distinct (map fst ents)"
  let ?w0 = "log_Debugf ''expireUnused (except %v)'' [AStrs used] w"
  let ?entries = "map (\<lambda>(n, f). \<lparr>Name = n, ModTime = modtime f\<rparr>) ents"
  let ?w1 = "emit (Sys (ReadDir (dirname c)) None) ?w0"
  have rd: "ioutil_ReadDir (dirname c) ?w0 = (Inr ?entries, ?w1)"
    using h by (simp add: ioutil_ReadDir_def env_step_quiet log_Debugf_def emit_def)
  have w1: "script ?w1 = []" "fs ?w1 = fs w"
    using h by (simp_all add: log_Debugf_def emit_def)
  have nm: "map Name ?entries = map fst ents"
    by (induction ents) auto
  have "distinct (map Name ?entries)"
    unfolding nm using h by blast
  from remaining_filter [OF this, of used]
  have res: "expireUnused c used w
      = (None, expire_remaining c (filter (\<lambda>e. candidate used (Name e)) ?entries) ?w1)"
    by (simp add: expireUnused_def rd)
  show "fst (expireUnused c used w) = None"
    by (simp add: res)
  have now: "\<forall>v. timeNow c v = now"
    using h by blast
  have lk: "lookup q (fs (snd (expireUnused c used w)))
      = (if q \<in> (\<lambda>rem. filepath_Join (dirname c) (Name rem))
                  ` {rem \<in> set (filter (\<lambda>e. candidate used (Name e)) ?entries). old_enough now (ModTime rem)}
         then None else lookup q (fs w))" for q
    unfolding res snd_conv
    using expire_remaining_quiet [OF now w1(1), THEN conjunct2, rule_format, of q
        "filter (\<lambda>e. candidate used (Name e)) ?entries"]
    unfolding w1(2) .
  show "\<forall>n. lookup (dirname c, n) (fs (snd (expireUnused c used w)))
             = (case map_of ents n of
                  None \<Rightarrow> None
                | Some f \<Rightarrow>
                    if strings_HasSuffix n simpleIndexSuffix
                       \<and> strings_TrimSuffix n simpleIndexSuffix \<notin> set used
                       \<and> now - modtime f > 3600 * 1000000000
                    then None else Some f)"
  proof
    fix n
    have d: "distinct (map fst ents)"
      using h by blast
    have "(dirname c, n) \<in> (\<lambda>rem. filepath_Join (dirname c) (Name rem))
                  ` {rem \<in> set (filter (\<lambda>e. candidate used (Name e)) ?entries). old_enough now (ModTime rem)}
        \<longleftrightarrow> candidate used n \<and> (\<exists>rem \<in> set ?entries. Name rem = n \<and> old_enough now (ModTime rem))"
      unfolding filepath_Join_def by fastforce
    then have mem: "(dirname c, n) \<in> (\<lambda>rem. filepath_Join (dirname c) (Name rem))
                  ` {rem \<in> set (filter (\<lambda>e. candidate used (Name e)) ?entries). old_enough now (ModTime rem)}
        \<longleftrightarrow> candidate used n \<and> (\<exists>f. map_of ents n = Some f \<and> old_enough now (modtime f))"
      unfolding map_of_info [OF d, of n "old_enough now"] .
    have "lookup (dirname c, n) (fs w) = map_of ents n"
      using h by (simp add: lookup_def)
    then show "lookup (dirname c, n) (fs (snd (expireUnused c used w)))
             = (case map_of ents n of
                  None \<Rightarrow> None
                | Some f \<Rightarrow>
                    if strings_HasSuffix n simpleIndexSuffix
                       \<and> strings_TrimSuffix n simpleIndexSuffix \<notin> set used
                       \<and> now - modtime f > 3600 * 1000000000
                    then None else Some f)"
      unfolding lk mem by (auto simp: candidate_def old_enough_def split: option.splits)
  qed
qed

theorem expireUnused_removes_old_unused_witness:
  "fst (expireUnused \<lparr>dirname = ''cache'', timeNow = (\<lambda>w. 10000000000000), v1PerContentOverhead = 0\<rparr>
         [''b'']
         \<lparr>fs = (\<lambda>d. None)(''cache'' \<mapsto>
                 [(''a.sndx'', \<lparr>content = [1], modtime = 0\<rparr>),
                  (''b.sndx'', \<lparr>content = [2], modtime = 0\<rparr>),
                  (''c.sndx'', \<lparr>content = [3], modtime = 9000000000000\<rparr>),
                  (''tmp7'', \<lparr>content = [4], modtime = 0\<rparr>)]),
          clock = 10000000000000, rand = 0, script = [], trace = []\<rparr>) = None
   \<and> map (\<lambda>n. lookup (''cache'', n)
         (fs (snd (expireUnused
            \<lparr>dirname = ''cache'', timeNow = (\<lambda>w. 10000000000000), v1PerContentOverhead = 0\<rparr>
            [''b'']
            \<lparr>fs = (\<lambda>d. None)(''cache'' \<mapsto>
                 [(''a.sndx'', \<lparr>content = [1], modtime = 0\<rparr>),
                  (''b.sndx'', \<lparr>content = [2], modtime = 0\<rparr>),
                  (''c.sndx'', \<lparr>content = [3], modtime = 9000000000000\<rparr>),
                  (''tmp7'', \<lparr>content = [4], modtime = 0\<rparr>)]),
             clock = 10000000000000, rand = 0, script = [], trace = []\<rparr>))))
       [''a.sndx'', ''b.sndx'', ''c.sndx'', ''tmp7'']
     = [None, Some \<lparr>content = [2], modtime = 0\<rparr>,
        Some \<lparr>content = [3], modtime = 9000000000000\<rparr>, Some \<lparr>content = [4], modtime = 0\<rparr>]"
proof -
  let ?c = "\<lparr>dirname = ''cache'', timeNow = (\<lambda>w. 10000000000000), v1PerContentOverhead = 0\<rparr>"
  let ?ents = "[(''a.sndx'', \<lparr>content = [1], modtime = 0\<rparr>),
                  (''b.sndx'', \<lparr>content = [2], modtime = 0\<rparr>),
                  (''c.sndx'', \<lparr>content = [3], modtime = 9000000000000\<rparr>),
                  (''tmp7'', \<lparr>content = [4], modtime = 0\<rparr>)]"
  let ?w = "\<lparr>fs = (\<lambda>d. None)(''cache'' \<mapsto> ?ents),
          clock = 10000000000000, rand = 0, script = [], trace = []\<rparr>"
  have h: "script ?w = [] \<and> (\<forall>v. timeNow ?c v = 10000000000000) \<and> fs ?w (dirname ?c) = Some ?ents
        \<and> distinct (map fst ?ents)"
    by simp
  from expireUnused_removes_old_unused [of ?c "[''b'']" ?w 10000000000000 ?ents,
      THEN conjunct2, rule_format, OF h]
  show ?thesis
    by (simp add: strings_HasSuffix_def strings_TrimSuffix_def simpleIndexSuffix_def)
qed

lemma expire_remaining_attempts:
  assumes "\<forall>v. timeNow c v = now"
  shows "map fst (remove_calls (trace (expire_remaining c rems w)))
     = map fst (remove_calls (trace w))
       @ map (\<lambda>rem. filepath_Join (dirname c) (Name rem))
           (filter (\<lambda>rem. old_enough now (ModTime rem)) rems)"
proof (induction rems arbitrary: w)
  case Nil
  show ?case by simp
next
  case (Cons rem rems)
  let ?p = "filepath_Join (dirname c) (Name rem)"
  let ?w1 = "log_Debugf ''removing unused %v %v'' [AStr (Name rem), ATime (ModTime rem)] w"
  show ?case
  proof (cases "old_enough now (ModTime rem)")
    case True
    let ?w2 = "snd (os_Remove ?p ?w1)"
    let ?step = "case fst (os_Remove ?p ?w1) of
                   Some e \<Rightarrow> log_Errorf ''unable to remove unused index file: %v'' [AErr e] ?w2
                 | None \<Rightarrow> ?w2"
    from os_Remove_trace [of ?p ?w1 "fst (os_Remove ?p ?w1)" ?w2]
    obtain r where "trace ?w2 = trace ?w1 @ [Sys (Remove ?p) r]"
      by auto
    then have st: "map fst (remove_calls (trace ?step)) = map fst (remove_calls (trace w)) @ [?p]"
      by (auto simp: log_Debugf_def log_Errorf_def emit_def split: option.splits)
    have unf: "expire_remaining c (rem # rems) w = expire_remaining c rems ?step"
      using True assms by (simp add: time_Sub_old case_prod_beta Let_def)
    show ?thesis
      unfolding unf Cons.IH [of ?step] st using True by simp
  next
    case False
    let ?step = "log_Debugf ''keeping unused %v because it's too new %v''
               [AStr (Name rem), ATime (ModTime rem)] w"
    have st: "remove_calls (trace ?step) = remove_calls (trace w)"
      by (simp add: log_Debugf_def emit_def)
    have unf: "expire_remaining c (rem # rems) w = expire_remaining c rems ?step"
      using False assms by (simp add: time_Sub_old)
    show ?thesis
      unfolding unf Cons.IH [of ?step] st using False by simp
  qed
qed

text \<open>
  C9.  When the listing of the directory succeeds, \<open>expireUnused\<close> returns no error,
  whatever the removals do.  Each removal that fails leaves one line in the error
  log, with its errno, and nothing else does.  With no name twice in the listing,
  the loop visits every file of the listing that has the suffix and an unused
  identifier, once, in the order of the listing; with the time source standing at
  \<open>now\<close>, it calls \<open>os.Remove\<close> on every one of them that is more than an hour old,
  whether the removals before it failed or not.
\<close>

theorem expireUnused_removal_failures:
  assumes "fst (ioutil_ReadDir (dirname c) (log_Debugf ''expireUnused (except %v)'' [AStrs used] w))
             = Inr entries"
  shows "fst (expireUnused c used w) = None
     \<and> (\<exists>rs. remove_calls (trace (snd (expireUnused c used w))) = remove_calls (trace w) @ rs
          \<and> error_logs (trace (snd (expireUnused c used w)))
              = error_logs (trace w)
                @ map (\<lambda>e. (''unable to remove unused index file: %v'', [AErr (OsErr e)]))
                    (List.map_filter snd rs)
          \<and> (distinct (map Name entries) \<and> (\<forall>v. timeNow c v = now) \<longrightarrow>
               map fst rs
                 = map (\<lambda>e. (dirname c, Name e))
                     (filter (\<lambda>e. strings_HasSuffix (Name e) simpleIndexSuffix
                                \<and> strings_TrimSuffix (Name e) simpleIndexSuffix \<notin> set used
                                \<and> now - ModTime e > 3600 * 1000000000) entries)))
     \<and> (distinct (map Name entries) \<longrightarrow>
          visits (trace (snd (expireUnused c used w)))
            = visits (trace w)
              @ filter (\<lambda>n. strings_HasSuffix n simpleIndexSuffix
                           \<and> strings_TrimSuffix n simpleIndexSuffix \<notin> set used)
                  (map Name entries))"
proof -
  let ?w0 = "log_Debugf ''expireUnused (except %v)'' [AStrs used] w"
  let ?rems = "map snd (delete_used used (collect_remaining entries []))"
  obtain wr where rd: "ioutil_ReadDir (dirname c) ?w0 = (Inr entries, wr)"
    using assms by (metis prod.collapse)
  have res: "expireUnused c used w = (None, expire_remaining c ?rems wr)"
    by (simp add: expireUnused_def rd)
  from ioutil_ReadDir_effect [OF rd, THEN conjunct1]
  obtain e where e: "trace wr = trace ?w0 @ [Sys (ReadDir (dirname c)) e]" ..
  have tr: "remove_calls (trace wr) = remove_calls (trace w)"
    "error_logs (trace wr) = error_logs (trace w)" "visits (trace wr) = visits (trace w)"
    unfolding e by (simp_all add: log_Debugf_def emit_def)
  from expire_remaining_trace [of c ?rems wr] obtain rs where rs0:
    "remove_calls (trace (expire_remaining c ?rems wr)) = remove_calls (trace wr) @ rs
     \<and> fst ` set rs \<subseteq> (\<lambda>rem. filepath_Join (dirname c) (Name rem)) ` set ?rems
     \<and> error_logs (trace (expire_remaining c ?rems wr))
         = error_logs (trace wr)
           @ map (\<lambda>e. (''unable to remove unused index file: %v'', [AErr (OsErr e)]))
               (List.map_filter snd rs)
     \<and> visits (trace (expire_remaining c ?rems wr)) = visits (trace wr) @ map Name ?rems
     \<and> (no_racers wr \<longrightarrow> no_racers (expire_remaining c ?rems wr)
          \<and> (\<forall>q. lookup q (fs (expire_remaining c ?rems wr))
                 = (if (q, None) \<in> set rs then None else lookup q (fs wr))))"
    ..
  have rs:
    "remove_calls (trace (expire_remaining c ?rems wr)) = remove_calls (trace wr) @ rs"
    "error_logs (trace (expire_remaining c ?rems wr))
         = error_logs (trace wr)
           @ map (\<lambda>e. (''unable to remove unused index file: %v'', [AErr (OsErr e)]))
               (List.map_filter snd rs)"
    "visits (trace (expire_remaining c ?rems wr)) = visits (trace wr) @ map Name ?rems"
    using rs0 by - ((elim conjE, assumption)+)
  have att: "map fst rs
                 = map (\<lambda>e. (dirname c, Name e))
                     (filter (\<lambda>e. strings_HasSuffix (Name e) simpleIndexSuffix
                                \<and> strings_TrimSuffix (Name e) simpleIndexSuffix \<notin> set used
                                \<and> now - ModTime e > 3600 * 1000000000) entries)"
    if d: "distinct (map Name entries)" and n: "\<forall>v. timeNow c v = now"
  proof -
    from expire_remaining_attempts [OF n, of ?rems wr] rs(1)
    have "map fst rs = map (\<lambda>rem. filepath_Join (dirname c) (Name rem))
           (filter (\<lambda>rem. old_enough now (ModTime rem)) ?rems)"
      by simp
    then show ?thesis
      unfolding remaining_filter [OF d]
      by (simp add: filepath_Join_def candidate_def old_enough_def conj_commute conj_left_commute)
  qed
  have vis: "visits (trace (expire_remaining c ?rems wr))
            = visits (trace w)
              @ filter (\<lambda>n. strings_HasSuffix n simpleIndexSuffix
                           \<and> strings_TrimSuffix n simpleIndexSuffix \<notin> set used)
                  (map Name entries)"
    if d: "distinct (map Name entries)"
  proof -
    have "map Name ?rems
        = filter (\<lambda>n. strings_HasSuffix n simpleIndexSuffix
                           \<and> strings_TrimSuffix n simpleIndexSuffix \<notin> set used)
                  (map Name entries)"
      unfolding remaining_filter [OF d] by (simp add: filter_map comp_def candidate_def)
    then show ?thesis
      using rs(3) tr(3) by simp
  qed
  show ?thesis
    unfolding res fst_conv snd_conv
    using rs(1,2) att vis unfolding tr
    by (intro conjI refl exI [of _ rs] impI) auto
qed

theorem expireUnused_removal_failures_witness:
  "fst (expireUnused \<lparr>dirname = ''cache'', timeNow = (\<lambda>w. 10000000000000), v1PerContentOverhead = 0\<rparr>
         []
         \<lparr>fs = (\<lambda>d. None)(''cache'' \<mapsto>
                 [(''a.sndx'', \<lparr>content = [1], modtime = 0\<rparr>),
                  (''d.sndx'', \<lparr>content = [2], modtime = 0\<rparr>)]),
          clock = 10000000000000, rand = 0, script = [([], None), ([], Some EACCES)], trace = []\<rparr>) = None
   \<and> error_logs (trace (snd (expireUnused
         \<lparr>dirname = ''cache'', timeNow = (\<lambda>w. 10000000000000), v1PerContentOverhead = 0\<rparr>
         []
         \<lparr>fs = (\<lambda>d. None)(''cache'' \<mapsto>
                 [(''a.sndx'', \<lparr>content = [1], modtime = 0\<rparr>),
                  (''d.sndx'', \<lparr>content = [2], modtime = 0\<rparr>)]),
          clock = 10000000000000, rand = 0, script = [([], None), ([], Some EACCES)], trace = []\<rparr>)))
     = [(''unable to remove unused index file: %v'', [AErr (OsErr EACCES)])]
   \<and> remove_calls (trace (snd (expireUnused
         \<lparr>dirname = ''cache'', timeNow = (\<lambda>w. 10000000000000), v1PerContentOverhead = 0\<rparr>
         []
         \<lparr>fs = (\<lambda>d. None)(''cache'' \<mapsto>
                 [(''a.sndx'', \<lparr>content = [1], modtime = 0\<rparr>),
                  (''d.sndx'', \<lparr>content = [2], modtime = 0\<rparr>)]),
          clock = 10000000000000, rand = 0, script = [([], None), ([], Some EACCES)], trace = []\<rparr>)))
     = [((''cache'', ''a.sndx''), Some EACCES), ((''cache'', ''d.sndx''), None)]"
proof -
  let ?c = "\<lparr>dirname = ''cache'', timeNow = (\<lambda>w. 10000000000000), v1PerContentOverhead = 0\<rparr>"
  let ?w = "\<lparr>fs = (\<lambda>d. None)(''cache'' \<mapsto>
                 [(''a.sndx'', \<lparr>content = [1], modtime = 0\<rparr>),
                  (''d.sndx'', \<lparr>content = [2], modtime = 0\<rparr>)]),
          clock = 10000000000000, rand = 0, script = [([], None), ([], Some EACCES)], trace = []\<rparr>"
  let ?entries = "[\<lparr>Name = ''a.sndx'', ModTime = 0\<rparr>, \<lparr>Name = ''d.sndx'', ModTime = 0\<rparr>]"
  have rd: "fst (ioutil_ReadDir (dirname ?c) (log_Debugf ''expireUnused (except %v)'' [AStrs []] ?w))
             = Inr ?entries"
    by (simp add: expire_run_defs)
  have ev: "remove_calls (trace (snd (expireUnused ?c [] ?w)))
     = [((''cache'', ''a.sndx''), Some EACCES), ((''cache'', ''d.sndx''), None)]"
    by (simp add: expire_run_defs)
  note T = expireUnused_removal_failures [OF rd, where now = 10000000000000]
  from T [THEN conjunct2, THEN conjunct1] obtain rs where rs0:
    "remove_calls (trace (snd (expireUnused ?c [] ?w))) = remove_calls (trace ?w) @ rs
     \<and> error_logs (trace (snd (expireUnused ?c [] ?w)))
              = error_logs (trace ?w)
                @ map (\<lambda>e. (''unable to remove unused index file: %v'', [AErr (OsErr e)]))
                    (List.map_filter snd rs)
     \<and> (distinct (map Name ?entries) \<and> (\<forall>v. timeNow ?c v = 10000000000000) \<longrightarrow>
               map fst rs
                 = map (\<lambda>e. (dirname ?c, Name e))
                     (filter (\<lambda>e. strings_HasSuffix (Name e) simpleIndexSuffix
                                \<and> strings_TrimSuffix (Name e) simpleIndexSuffix \<notin> set []
                                \<and> 10000000000000 - ModTime e > 3600 * 1000000000) ?entries))"
    ..
  have d: "distinct (map Name ?entries) \<and> (\<forall>v. timeNow ?c v = 10000000000000)"
    by simp
  from rs0 [THEN conjunct2, THEN conjunct2, rule_format, OF d]
  have paths: "map fst rs = [(''cache'', ''a.sndx''), (''cache'', ''d.sndx'')]"
    by (simp add: strings_HasSuffix_def strings_TrimSuffix_def simpleIndexSuffix_def)
  from rs0 [THEN conjunct1] ev have "rs = [((''cache'', ''a.sndx''), Some EACCES), ((''cache'', ''d.sndx''), None)]"
    by simp
  with rs0 [THEN conjunct2, THEN conjunct1]
  have "error_logs (trace (snd (expireUnused ?c [] ?w)))
     = [(''unable to remove unused index file: %v'', [AErr (OsErr EACCES)])]"
    by (simp add: List.map_filter_simps)
  with T [THEN conjunct1] ev show ?thesis
    by simp
qed

lemma create_temp_try_fs:
  "create_temp_try d pat n w = (r, w') \<Longrightarrow>
   script w' = script w
   \<and> (\<forall>q. lookup q (fs w') \<noteq> lookup q (fs w) \<longrightarrow> (\<exists>k. q = (d, pat @ show_nat k)))"
proof (induction d pat n w rule: create_temp_try.induct)
  case (1 d pattern tries w)
  show ?case
  proof (cases "fs w d")
    case None
    with "1.prems" show ?thesis
      by (subst (asm) create_temp_try.simps) (auto simp: Let_def)
  next
    case (Some ents)
    show ?thesis
    proof (cases "map_of ents (pattern @ show_nat (rand w))")
      case None
      with "1.prems" Some
      have "script w' = script w
          \<and> fs w' = (fs w)(d \<mapsto> ents @ [(pattern @ show_nat (rand w), \<lparr>content = [], modtime = clock w\<rparr>)])"
        by (subst (asm) create_temp_try.simps) (auto simp: Let_def)
      then have "script w' = script w"
        "\<forall>q. lookup q (fs w') \<noteq> lookup q (fs w) \<longrightarrow> q = (d, pattern @ show_nat (rand w))"
        using Some by (auto simp: lookup_def map_add_def split: option.splits if_splits)
      then show ?thesis
        by blast
    next
      case f: (Some f)
      show ?thesis
      proof (cases "Suc tries < 10000")
        case True
        with "1.prems" Some f
        have "create_temp_try d pattern (Suc tries) (w\<lparr>rand := Suc (rand w)\<rparr>) = (r, w')"
          by (subst (asm) create_temp_try.simps) (simp add: Let_def)
        from "1.IH" [OF refl refl Some f True this] show ?thesis
          by simp
      next
        case False
        with "1.prems" Some f show ?thesis
          by (subst (asm) create_temp_try.simps) (auto simp: Let_def)
      qed
    qed
  qed
qed

lemma no_racers_script: "script w' = script w \<Longrightarrow> no_racers w' = no_racers w"
  by (simp add: no_racers_def)

lemma os_CreateTemp_fs:
  assumes "no_racers w" "os_CreateTemp d pat w = (r, w')"
  shows "no_racers w'
     \<and> (\<forall>q. lookup q (fs w') \<noteq> lookup q (fs w) \<longrightarrow> (\<exists>k. q = (d, pat @ show_nat k)))"
proof -
  let ?w1 = "snd (env_step w)"
  have e: "fs ?w1 = fs w" "no_racers ?w1"
    using env_step_no_racers [OF assms(1)] by simp_all
  obtain r2 w2 where ct: "create_temp_try d pat 0 ?w1 = (r2, w2)"
    by (metis prod.exhaust)
  from create_temp_try_fs [OF ct] e
  have c: "no_racers w2"
    "\<forall>q. lookup q (fs w2) \<noteq> lookup q (fs w) \<longrightarrow> (\<exists>k. q = (d, pat @ show_nat k))"
    by (simp_all add: no_racers_def)
  show ?thesis
    using assms(2) e c ct
    by (auto simp: os_CreateTemp_def Let_def emit_def no_racers_def
        split: prod.splits option.splits sum.splits)
qed

lemma os_MkdirAll_fs:
  assumes "no_racers w" "os_MkdirAll d w = (r, w')"
  shows "no_racers w' \<and> (\<forall>q. lookup q (fs w') = lookup q (fs w))"
  using assms env_step_no_racers [OF assms(1)]
  by (auto simp: os_MkdirAll_def Let_def emit_def no_racers_def lookup_def
      split: prod.splits option.splits if_splits)

lemma lookup_Some_dir: "lookup p m = Some f \<Longrightarrow> m (fst p) \<noteq> None"
  by (auto simp: lookup_def split: option.splits)

lemma file_Write_fs:
  assumes "no_racers w" "file_Write p b w = (r, w')"
  shows "no_racers w' \<and> (\<forall>q. q \<noteq> p \<longrightarrow> lookup q (fs w') = lookup q (fs w))"
  using assms env_step_no_racers [OF assms(1)]
  by (auto simp: file_Write_def Let_def emit_def no_racers_def lookup_put_file
      dest: lookup_Some_dir split: prod.splits option.splits)

lemma file_Close_fs:
  assumes "no_racers w" "file_Close p w = (r, w')"
  shows "no_racers w' \<and> fs w' = fs w"
  using assms env_step_no_racers [OF assms(1)]
  by (auto simp: file_Close_def Let_def emit_def no_racers_def split: prod.splits option.splits)

text \<open>
  With no other process acting, the files that differ after \<open>writeTempFileAtomic\<close>,
  whether it fails or not, have temporary names in its directory.
\<close>

lemma writeTempFileAtomic_fs:
  assumes "no_racers w"
    and "lookup q (fs (snd (writeTempFileAtomic d data w))) \<noteq> lookup q (fs w)"
  shows "\<exists>k. q = (d, ''tmp'' @ show_nat k)"
proof -
  let ?res = "writeTempFileAtomic d data w"
  obtain r1 w1 where c1: "os_CreateTemp d ''tmp'' w = (r1, w1)"
    by (metis prod.exhaust)
  obtain rm wm where mk: "os_MkdirAll d w1 = (rm, wm)"
    by (metis prod.exhaust)
  obtain r2 w2 where c2: "os_CreateTemp d ''tmp'' wm = (r2, w2)"
    by (metis prod.exhaust)
  note f1 = os_CreateTemp_fs [OF assms(1) c1]
  note fm = os_MkdirAll_fs [OF f1 [THEN conjunct1] mk]
  note f2 = os_CreateTemp_fs [OF fm [THEN conjunct1] c2]
  have b1: "lookup q (fs w1) \<noteq> lookup q (fs w) \<longrightarrow> (\<exists>k. q = (d, ''tmp'' @ show_nat k))"
    using f1 by blast
  have b2: "lookup q (fs w2) \<noteq> lookup q (fs w) \<longrightarrow> (\<exists>k. q = (d, ''tmp'' @ show_nat k))"
    using f1 fm f2 by metis
  have tail: "lookup q (fs v') \<noteq> lookup q (fs w) \<longrightarrow> (\<exists>k. q = (d, ''tmp'' @ show_nat k))"
    if v: "no_racers v" and tf: "\<exists>k. tf = (d, ''tmp'' @ show_nat k)"
      and base: "lookup q (fs v) \<noteq> lookup q (fs w) \<longrightarrow> (\<exists>k. q = (d, ''tmp'' @ show_nat k))"
      and wr: "file_Write tf data v = (rw, w3)" and cl: "file_Close tf w3 = (rc, w4)"
      and v': "v' = w3 \<or> v' = w4"
    for tf v v' rw w3 rc w4
  proof -
    note fw = file_Write_fs [OF v wr]
    note fc = file_Close_fs [OF fw [THEN conjunct1] cl]
    have "lookup q (fs v') = lookup q (fs w3)"
      using v' fc by auto
    with fw base tf show ?thesis
      by (cases "q = tf") metis+
  qed
  have goal: "lookup q (fs (snd ?res)) \<noteq> lookup q (fs w) \<longrightarrow> (\<exists>k. q = (d, ''tmp'' @ show_nat k))"
  proof (cases r1)
    case (Inr tf)
    from os_CreateTemp_name [OF c1 [unfolded Inr]] have tf: "\<exists>k. tf = (d, ''tmp'' @ show_nat k)" .
    obtain rw w3 where wr: "file_Write tf data w1 = (rw, w3)"
      by (metis prod.exhaust)
    obtain rc w4 where cl: "file_Close tf w3 = (rc, w4)"
      by (metis prod.exhaust)
    have "snd ?res = w3 \<or> snd ?res = w4"
      by (cases rw; cases rc; simp add: writeTempFileAtomic_def c1 Inr wr cl Let_def)
    from tail [OF f1 [THEN conjunct1] tf b1 wr cl this] show ?thesis .
  next
    case (Inl err)
    show ?thesis
    proof (cases "os_IsNotExist err")
      case False
      then have "snd ?res = w1"
        by (simp add: writeTempFileAtomic_def c1 Inl Let_def)
      with b1 show ?thesis by simp
    next
      case True
      show ?thesis
      proof (cases r2)
        case e2: (Inl err2)
        then have "snd ?res = w2"
          using True by (simp add: writeTempFileAtomic_def c1 Inl mk c2 Let_def)
        with b2 show ?thesis by simp
      next
        case tf2: (Inr tf)
        from os_CreateTemp_name [OF c2 [unfolded tf2]] have tf: "\<exists>k. tf = (d, ''tmp'' @ show_nat k)" .
        obtain rw w3 where wr: "file_Write tf data w2 = (rw, w3)"
          by (metis prod.exhaust)
        obtain rc w4 where cl: "file_Close tf w3 = (rc, w4)"
          by (metis prod.exhaust)
        have "snd ?res = w3 \<or> snd ?res = w4"
          using True
          by (cases rw; cases rc; simp add: writeTempFileAtomic_def c1 Inl mk c2 tf2 wr cl Let_def)
        from tail [OF f2 [THEN conjunct1] tf b2 wr cl this] show ?thesis .
      qed
    qed
  qed
  with assms(2) show ?thesis
    by blast
qed

text \<open>
  C10.  Every file \<open>expireUnused\<close> removes, or tries to, is in its directory and has
  a name that ends with \<open>.sndx\<close>.  So, when no other process interferes, any file
  whose name does not end with \<open>.sndx\<close> is after the call what it was before,
  whatever its age and whatever fails.  The temporary files that
  \<open>writeTempFileAtomic\<close> writes are among them: the name it returns does not end
  with \<open>.sndx\<close>, and neither does the name of any file that it creates or changes,
  also when it fails and leaves its file behind.  When the listing of the directory fails, the call returns that error
  wrapped and removes nothing: its only system call is the listing.
\<close>

theorem expireUnused_only_index_suffix:
  "(\<exists>rs. remove_calls (trace (snd (expireUnused c used w))) = remove_calls (trace w) @ rs
      \<and> (\<forall>(p, r) \<in> set rs. fst p = dirname c \<and> strings_HasSuffix (snd p) simpleIndexSuffix))
   \<and> (no_racers w \<and> \<not> strings_HasSuffix n simpleIndexSuffix \<longrightarrow>
        lookup (d, n) (fs (snd (expireUnused c used w))) = lookup (d, n) (fs w))
   \<and> (\<forall>data v tf. fst (writeTempFileAtomic (dirname c) data v) = Inr tf \<longrightarrow>
        fst tf = dirname c \<and> \<not> strings_HasSuffix (snd tf) simpleIndexSuffix)
   \<and> (\<forall>data v q. no_racers v
          \<and> lookup q (fs (snd (writeTempFileAtomic (dirname c) data v))) \<noteq> lookup q (fs v) \<longrightarrow>
        fst q = dirname c \<and> \<not> strings_HasSuffix (snd q) simpleIndexSuffix)
   \<and> (\<forall>err. fst (ioutil_ReadDir (dirname c) (log_Debugf ''expireUnused (except %v)'' [AStrs used] w))
               = Inl err \<longrightarrow>
        fst (expireUnused c used w) = Some (Wrap err ''can't list cache'')
        \<and> remove_calls (trace (snd (expireUnused c used w))) = remove_calls (trace w)
        \<and> fs (snd (expireUnused c used w)) = fs (snd (env_step w)))"
proof (intro conjI impI allI)
  from expireUnused_removes [of c used w]
  show "\<exists>rs. remove_calls (trace (snd (expireUnused c used w))) = remove_calls (trace w) @ rs
      \<and> (\<forall>(p, r) \<in> set rs. fst p = dirname c \<and> strings_HasSuffix (snd p) simpleIndexSuffix)"
    by (fastforce simp: candidate_def)
next
  assume h: "no_racers w \<and> \<not> strings_HasSuffix n simpleIndexSuffix"
  let ?w0 = "log_Debugf ''expireUnused (except %v)'' [AStrs used] w"
  obtain r w1 where rd: "ioutil_ReadDir (dirname c) ?w0 = (r, w1)"
    by (metis prod.exhaust)
  have w0: "no_racers ?w0" "fs ?w0 = fs w"
    using h by (simp_all add: log_Debugf_def emit_def no_racers_def)
  from ioutil_ReadDir_effect [OF rd] env_step_no_racers [OF w0(1)] w0
  have w1: "no_racers w1" "fs w1 = fs w"
    by auto
  show "lookup (d, n) (fs (snd (expireUnused c used w))) = lookup (d, n) (fs w)"
  proof (cases r)
    case (Inl err)
    then show ?thesis
      using rd w1 by (simp add: expireUnused_def)
  next
    case (Inr entries)
    let ?rems = "map snd (delete_used used (collect_remaining entries []))"
    from expire_remaining_trace [of c ?rems w1] obtain rs where rs0:
      "remove_calls (trace (expire_remaining c ?rems w1)) = remove_calls (trace w1) @ rs
       \<and> fst ` set rs \<subseteq> (\<lambda>rem. filepath_Join (dirname c) (Name rem)) ` set ?rems
       \<and> error_logs (trace (expire_remaining c ?rems w1))
           = error_logs (trace w1)
             @ map (\<lambda>e. (''unable to remove unused index file: %v'', [AErr (OsErr e)]))
                 (List.map_filter snd rs)
       \<and> visits (trace (expire_remaining c ?rems w1)) = visits (trace w1) @ map Name ?rems
       \<and> (no_racers w1 \<longrightarrow> no_racers (expire_remaining c ?rems w1)
            \<and> (\<forall>q. lookup q (fs (expire_remaining c ?rems w1))
                   = (if (q, None) \<in> set rs then None else lookup q (fs w1))))"
      ..
    have rs: "fst ` set rs \<subseteq> (\<lambda>rem. filepath_Join (dirname c) (Name rem)) ` set ?rems"
      "no_racers w1 \<longrightarrow> no_racers (expire_remaining c ?rems w1)
            \<and> (\<forall>q. lookup q (fs (expire_remaining c ?rems w1))
                   = (if (q, None) \<in> set rs then None else lookup q (fs w1)))"
      using rs0 by - ((elim conjE, assumption)+)
    have "((d, n), None) \<notin> set rs"
    proof
      assume "((d, n), None) \<in> set rs"
      with rs(1) obtain rem where "rem \<in> set ?rems" "(d, n) = filepath_Join (dirname c) (Name rem)"
        by force
      with remaining_candidates [of used entries] h show False
        by (auto simp: filepath_Join_def candidate_def)
    qed
    with rs(2) w1 show ?thesis
      using rd Inr by (simp add: expireUnused_def)
  qed
next
  fix data v tf
  assume "fst (writeTempFileAtomic (dirname c) data v) = Inr tf"
  from writeTempFileAtomic_name [OF this] temp_name_no_suffix [of "''tmp''"]
  show "fst tf = dirname c" "\<not> strings_HasSuffix (snd tf) simpleIndexSuffix"
    by auto
next
  fix data v q
  assume "no_racers v
          \<and> lookup q (fs (snd (writeTempFileAtomic (dirname c) data v))) \<noteq> lookup q (fs v)"
  then have "\<exists>k. q = (dirname c, ''tmp'' @ show_nat k)"
    using writeTempFileAtomic_fs by blast
  with temp_name_no_suffix [of "''tmp''"]
  show "fst q = dirname c" "\<not> strings_HasSuffix (snd q) simpleIndexSuffix"
    by auto
next
  fix err
  let ?w0 = "log_Debugf ''expireUnused (except %v)'' [AStrs used] w"
  assume a: "fst (ioutil_ReadDir (dirname c) ?w0) = Inl err"
  then have rd: "ioutil_ReadDir (dirname c) ?w0 = (Inl err, snd (ioutil_ReadDir (dirname c) ?w0))"
    by (metis prod.collapse)
  have e: "fs (snd (env_step ?w0)) = fs (snd (env_step w))"
    by (simp add: env_step_def log_Debugf_def emit_def split: list.splits)
  from ioutil_ReadDir_effect [OF rd] e
  show "fst (expireUnused c used w) = Some (Wrap err ''can't list cache'')"
    "remove_calls (trace (snd (expireUnused c used w))) = remove_calls (trace w)"
    "fs (snd (expireUnused c used w)) = fs (snd (env_step w))"
    using a by (auto simp: expireUnused_def log_Debugf_def emit_def split: prod.splits)
qed

theorem expireUnused_only_index_suffix_witness:
  "lookup (''cache'', ''tmp7'')
     (fs (snd (expireUnused \<lparr>dirname = ''cache'', timeNow = (\<lambda>w. 10000000000000), v1PerContentOverhead = 0\<rparr>
         []
         \<lparr>fs = (\<lambda>d. None)(''cache'' \<mapsto>
                 [(''a.sndx'', \<lparr>content = [1], modtime = 0\<rparr>),
                  (''tmp7'', \<lparr>content = [4], modtime = 0\<rparr>)]),
          clock = 10000000000000, rand = 0, script = [([], None), ([], Some EIO)], trace = []\<rparr>)))
     = Some \<lparr>content = [4], modtime = 0\<rparr>
   \<and> \<not> strings_HasSuffix ''tmp3'' simpleIndexSuffix
   \<and> fst (writeTempFileAtomic ''cache'' [5]
         \<lparr>fs = (\<lambda>d. None)(''cache'' \<mapsto> [(''a.sndx'', \<lparr>content = [1], modtime = 0\<rparr>)]),
          clock = 10000000000000, rand = 3, script = [([], None), ([], Some EIO)], trace = []\<rparr>)
     = Inl (Wrap (OsErr EIO) ''can't write to temp file'')
   \<and> lookup (''cache'', ''tmp3'') (fs (snd (writeTempFileAtomic ''cache'' [5]
         \<lparr>fs = (\<lambda>d. None)(''cache'' \<mapsto> [(''a.sndx'', \<lparr>content = [1], modtime = 0\<rparr>)]),
          clock = 10000000000000, rand = 3, script = [([], None), ([], Some EIO)], trace = []\<rparr>)))
     = Some \<lparr>content = [], modtime = 10000000000000\<rparr>
   \<and> fst (expireUnused \<lparr>dirname = ''cache'', timeNow = (\<lambda>w. 10000000000000), v1PerContentOverhead = 0\<rparr>
         []
         \<lparr>fs = (\<lambda>d. None)(''cache'' \<mapsto>
                 [(''a.sndx'', \<lparr>content = [1], modtime = 0\<rparr>),
                  (''tmp7'', \<lparr>content = [4], modtime = 0\<rparr>)]),
          clock = 10000000000000, rand = 0, script = [([], Some EACCES)], trace = []\<rparr>)
     = Some (Wrap (OsErr EACCES) ''can't list cache'')
   \<and> remove_calls (trace (snd (expireUnused
         \<lparr>dirname = ''cache'', timeNow = (\<lambda>w. 10000000000000), v1PerContentOverhead = 0\<rparr>
         []
         \<lparr>fs = (\<lambda>d. None)(''cache'' \<mapsto>
                 [(''a.sndx'', \<lparr>content = [1], modtime = 0\<rparr>),
                  (''tmp7'', \<lparr>content = [4], modtime = 0\<rparr>)]),
          clock = 10000000000000, rand = 0, script = [([], Some EACCES)], trace = []\<rparr>))) = []"
proof -
  let ?c = "\<lparr>dirname = ''cache'', timeNow = (\<lambda>w. 10000000000000), v1PerContentOverhead = 0\<rparr>"
  let ?u = "\<lparr>fs = (\<lambda>d. None)(''cache'' \<mapsto>
                 [(''a.sndx'', \<lparr>content = [1], modtime = 0\<rparr>),
                  (''tmp7'', \<lparr>content = [4], modtime = 0\<rparr>)]),
          clock = 10000000000000, rand = 0, script = [([], None), ([], Some EIO)], trace = []\<rparr>"
  let ?v = "\<lparr>fs = (\<lambda>d. None)(''cache'' \<mapsto>
                 [(''a.sndx'', \<lparr>content = [1], modtime = 0\<rparr>),
                  (''tmp7'', \<lparr>content = [4], modtime = 0\<rparr>)]),
          clock = 10000000000000, rand = 0, script = [([], Some EACCES)], trace = []\<rparr>"
  have 1: "no_racers ?u \<and> \<not> strings_HasSuffix ''tmp7'' simpleIndexSuffix"
    by (simp add: expire_run_defs)
  have 2: "fst (writeTempFileAtomic (dirname ?c) [5] (?v\<lparr>script := [], rand := 3\<rparr>)) = Inr (''cache'', ''tmp3'')"
    by (simp add: run_defs)
  have 3: "fst (ioutil_ReadDir (dirname ?c) (log_Debugf ''expireUnused (except %v)'' [AStrs []] ?v))
               = Inl (OsErr EACCES)"
    by (simp add: expire_run_defs)
  let ?x = "\<lparr>fs = (\<lambda>d. None)(''cache'' \<mapsto> [(''a.sndx'', \<lparr>content = [1], modtime = 0\<rparr>)]),
          clock = 10000000000000, rand = 3, script = [([], None), ([], Some EIO)], trace = []\<rparr>"
  have 4: "no_racers ?x
     \<and> fst (writeTempFileAtomic ''cache'' [5] ?x) = Inl (Wrap (OsErr EIO) ''can't write to temp file'')
     \<and> lookup (''cache'', ''tmp3'') (fs (snd (writeTempFileAtomic ''cache'' [5] ?x)))
         = Some \<lparr>content = [], modtime = 10000000000000\<rparr>
     \<and> lookup (''cache'', ''tmp3'') (fs ?x) = None"
    by (simp add: run_defs expire_run_defs lookup_def)
  then have 5: "no_racers ?x
     \<and> lookup (''cache'', ''tmp3'') (fs (snd (writeTempFileAtomic (dirname ?c) [5] ?x)))
         \<noteq> lookup (''cache'', ''tmp3'') (fs ?x)"
    by simp
  note U = expireUnused_only_index_suffix [of ?c "[]" ?u "''tmp7''" "''cache''"]
  note V = expireUnused_only_index_suffix [of ?c "[]" ?v "''tmp7''" "''cache''"]
  from U [THEN conjunct2, THEN conjunct1, rule_format, OF 1]
       V [THEN conjunct2, THEN conjunct2, THEN conjunct1, rule_format, OF 2]
       V [THEN conjunct2, THEN conjunct2, THEN conjunct2, THEN conjunct1, rule_format, OF 5]
       V [THEN conjunct2, THEN conjunct2, THEN conjunct2, THEN conjunct2, rule_format, OF 3]
       4
  show ?thesis
    by (simp add: lookup_def)
qed

section \<open>The temporary file after a failed rename\<close>

text \<open>No call of \<open>addContentToCache\<close> removes a file.\<close>

lemma hasIndexBlobID_no_remove:
  "hasIndexBlobID c i w = (r, w') \<Longrightarrow> remove_calls (trace w') = remove_calls (trace w)"
  using hasIndexBlobID_snd [of c i w] trace_env_step [of w]
  by (auto simp: emit_def)

lemma os_CreateTemp_no_remove:
  "os_CreateTemp d pat w = (r, w') \<Longrightarrow> remove_calls (trace w') = remove_calls (trace w)"
  using os_CreateTemp_trace [of d pat w] by auto

lemma os_MkdirAll_no_remove:
  "os_MkdirAll d w = (r, w') \<Longrightarrow> remove_calls (trace w') = remove_calls (trace w)"
  using trace_env_step [of w]
  by (auto simp: os_MkdirAll_def emit_def Let_def split: prod.splits option.splits)

lemma file_Write_no_remove:
  "file_Write p b w = (r, w') \<Longrightarrow> remove_calls (trace w') = remove_calls (trace w)"
  using trace_env_step [of w]
  by (auto simp: file_Write_def emit_def Let_def split: prod.splits option.splits)

lemma file_Close_no_remove:
  "file_Close p w = (r, w') \<Longrightarrow> remove_calls (trace w') = remove_calls (trace w)"
  using trace_env_step [of w]
  by (auto simp: file_Close_def emit_def Let_def split: prod.splits option.splits)

lemma os_Rename_no_remove:
  "os_Rename src dst w = (r, w') \<Longrightarrow> remove_calls (trace w') = remove_calls (trace w)"
  using trace_env_step [of w]
  by (auto simp: os_Rename_def emit_def Let_def split: prod.splits option.splits)

lemma writeTempFileAtomic_no_remove:
  "writeTempFileAtomic d data w = (r, w') \<Longrightarrow> remove_calls (trace w') = remove_calls (trace w)"
  unfolding writeTempFileAtomic_def
  by (auto simp: Let_def
      dest!: os_CreateTemp_no_remove os_MkdirAll_no_remove file_Write_no_remove file_Close_no_remove
      split: prod.splits sum.splits option.splits if_splits)

lemma addContentToCache_no_remove:
  "remove_calls (trace (snd (addContentToCache c i data w))) = remove_calls (trace w)"
  unfolding addContentToCache_def
  by (auto simp: Let_def
      dest!: hasIndexBlobID_no_remove writeTempFileAtomic_no_remove os_Rename_no_remove
      split: prod.splits sum.splits option.splits if_splits)

text \<open>A rename that fails changes no file, and neither does the existence check.\<close>

lemma os_Rename_failed_fs:
  "os_Rename src dst w = (Some e, w') \<Longrightarrow>
   fs w' = fs (snd (env_step w)) \<and> script w' = script (snd (env_step w))"
  by (auto simp: os_Rename_def emit_def Let_def split: prod.splits option.splits)

lemma hasIndexBlobID_fs:
  "hasIndexBlobID c i w = (r, w') \<Longrightarrow>
   fs w' = fs (snd (env_step w)) \<and> script w' = script (snd (env_step w))"
  by (auto simp: hasIndexBlobID_def os_Stat_def emit_def Let_def
      split: prod.splits option.splits if_splits)

text \<open>
  C7.  When the file of the identifier is there as the call makes its first existence
  check, and the check is not made to fail, \<open>addContentToCache\<close> returns no error.  Its
  one system call is that stat: no temporary file is created, no temporary name is
  drawn, and the file system is as the environment left it.  No call of
  \<open>addContentToCache\<close> removes a file.  When the destination is found only by the check
  that follows a failed rename, the temporary file has been written: the call returns
  no error and, after the temporary file was written, changes no file.  With no other
  process acting from then on, the file system at the return is the one
  \<open>writeTempFileAtomic\<close> left, the temporary file included.
\<close>

theorem addContentToCache_destination_present:
  "(fst (env_step w) = None \<and> lookup (indexBlobPath c i) (fs (snd (env_step w))) \<noteq> None \<longrightarrow>
       fst (addContentToCache c i data w) = None
     \<and> fs (snd (addContentToCache c i data w)) = fs (snd (env_step w))
     \<and> rand (snd (addContentToCache c i data w)) = rand w
     \<and> trace (snd (addContentToCache c i data w)) = trace w @ [Sys (Stat (indexBlobPath c i)) None])
   \<and> remove_calls (trace (snd (addContentToCache c i data w))) = remove_calls (trace w)
   \<and> (\<forall>w1 tmpFile w2 e w3 w4.
        hasIndexBlobID c i w = (Inr False, w1)
      \<and> writeTempFileAtomic (dirname c) data w1 = (Inr tmpFile, w2)
      \<and> os_Rename tmpFile (indexBlobPath c i) w2 = (Some e, w3)
      \<and> hasIndexBlobID c i w3 = (Inr True, w4) \<longrightarrow>
        addContentToCache c i data w = (None, w4)
      \<and> lookup (indexBlobPath c i) (fs w4) \<noteq> None
      \<and> fs w3 = fs (snd (env_step w2))
      \<and> fs w4 = fs (snd (env_step w3))
      \<and> (no_racers w2 \<longrightarrow> fs w4 = fs w2))"
proof (intro conjI allI impI)
  assume a: "fst (env_step w) = None \<and> lookup (indexBlobPath c i) (fs (snd (env_step w))) \<noteq> None"
  then have "fst (hasIndexBlobID c i w) = Inr True"
    by (simp add: hasIndexBlobID_fst)
  then have "hasIndexBlobID c i w = (Inr True, snd (hasIndexBlobID c i w))"
    by (metis prod.collapse)
  from addContentToCache_present [OF this, of data]
  show "fst (addContentToCache c i data w) = None"
    "fs (snd (addContentToCache c i data w)) = fs (snd (env_step w))"
    "rand (snd (addContentToCache c i data w)) = rand w"
    "trace (snd (addContentToCache c i data w)) = trace w @ [Sys (Stat (indexBlobPath c i)) None]"
    by simp_all
next
  show "remove_calls (trace (snd (addContentToCache c i data w))) = remove_calls (trace w)"
    by (rule addContentToCache_no_remove)
next
  fix w1 tmpFile w2 e w3 w4
  assume h: "hasIndexBlobID c i w = (Inr False, w1)
      \<and> writeTempFileAtomic (dirname c) data w1 = (Inr tmpFile, w2)
      \<and> os_Rename tmpFile (indexBlobPath c i) w2 = (Some e, w3)
      \<and> hasIndexBlobID c i w3 = (Inr True, w4)"
  then show "addContentToCache c i data w = (None, w4)"
    by (simp add: addContentToCache_def)
  from h show "lookup (indexBlobPath c i) (fs w4) \<noteq> None"
    by (blast dest: hasIndexBlobID_True_lookup)
  from h have rn: "fs w3 = fs (snd (env_step w2)) \<and> script w3 = script (snd (env_step w2))"
    by (blast dest: os_Rename_failed_fs)
  from h have ck: "fs w4 = fs (snd (env_step w3)) \<and> script w4 = script (snd (env_step w3))"
    by (blast dest: hasIndexBlobID_fs)
  show "fs w3 = fs (snd (env_step w2))" "fs w4 = fs (snd (env_step w3))"
    using rn ck by simp_all
  assume n: "no_racers w2"
  from env_step_no_racers [OF n] rn have "no_racers w3" "fs w3 = fs w2"
    by (simp_all add: no_racers_def)
  with env_step_no_racers [of w3] ck show "fs w4 = fs w2"
    by simp
qed

theorem addContentToCache_destination_present_witness:
  "fst (addContentToCache \<lparr>dirname = ''cache'', timeNow = (\<lambda>w. 0), v1PerContentOverhead = 0\<rparr> ''a'' [7, 8]
         \<lparr>fs = (\<lambda>d. None)(''cache'' \<mapsto> [(''a.sndx'', \<lparr>content = [1], modtime = 0\<rparr>)]),
          clock = 5, rand = 0, script = [], trace = []\<rparr>) = None
   \<and> fs (snd (addContentToCache \<lparr>dirname = ''cache'', timeNow = (\<lambda>w. 0), v1PerContentOverhead = 0\<rparr> ''a'' [7, 8]
         \<lparr>fs = (\<lambda>d. None)(''cache'' \<mapsto> [(''a.sndx'', \<lparr>content = [1], modtime = 0\<rparr>)]),
          clock = 5, rand = 0, script = [], trace = []\<rparr>)) ''cache''
       = Some [(''a.sndx'', \<lparr>content = [1], modtime = 0\<rparr>)]
   \<and> addContentToCache \<lparr>dirname = ''cache'', timeNow = (\<lambda>w. 0), v1PerContentOverhead = 0\<rparr> ''b'' [7, 8]
         \<lparr>fs = (\<lambda>d. None)(''cache'' \<mapsto> []), clock = 5, rand = 4,
          script = [([], None), ([], None), ([], None),
                    ([Publish (''cache'', ''b.sndx'') [9]], None), ([], Some EACCES)],
          trace = []\<rparr>
       = (None,
          \<lparr>fs = (\<lambda>d. None)(''cache'' \<mapsto>
                  [(''tmp4'', \<lparr>content = [7, 8], modtime = 5\<rparr>),
                   (''b.sndx'', \<lparr>content = [9], modtime = 5\<rparr>)]),
           clock = 5, rand = 5, script = [],
           trace = [Sys (Stat (''cache'', ''b.sndx'')) (Some ENOENT),
                    Sys (CreateTemp ''cache'' ''tmp'') None,
                    Sys (Write (''cache'', ''tmp4'') [7, 8]) None,
                    Sys (Close (''cache'', ''tmp4'')) None,
                    Sys (Rename (''cache'', ''tmp4'') (''cache'', ''b.sndx'')) (Some EACCES),
                    Sys (Stat (''cache'', ''b.sndx'')) None]\<rparr>)
   \<and> fs (snd (writeTempFileAtomic ''cache'' [7, 8]
              (snd (hasIndexBlobID \<lparr>dirname = ''cache'', timeNow = (\<lambda>w. 0), v1PerContentOverhead = 0\<rparr> ''b''
                 \<lparr>fs = (\<lambda>d. None)(''cache'' \<mapsto> []), clock = 5, rand = 4,
                  script = [([], None), ([], None), ([], None),
                            ([Publish (''cache'', ''b.sndx'') [9]], None), ([], Some EACCES)],
                  trace = []\<rparr>)))) ''cache''
       = Some [(''tmp4'', \<lparr>content = [7, 8], modtime = 5\<rparr>), (''b.sndx'', \<lparr>content = [9], modtime = 5\<rparr>)]"
proof -
  let ?c = "\<lparr>dirname = ''cache'', timeNow = (\<lambda>w. 0), v1PerContentOverhead = 0\<rparr>"
  let ?w = "\<lparr>fs = (\<lambda>d. None)(''cache'' \<mapsto> [(''a.sndx'', \<lparr>content = [1], modtime = 0\<rparr>)]),
             clock = 5, rand = 0, script = [], trace = []\<rparr>"
  let ?u = "\<lparr>fs = (\<lambda>d. None)(''cache'' \<mapsto> []), clock = 5, rand = 4,
          script = [([], None), ([], None), ([], None),
                    ([Publish (''cache'', ''b.sndx'') [9]], None), ([], Some EACCES)],
          trace = []\<rparr>"
  let ?ua = "snd (hasIndexBlobID ?c ''b'' ?u)"
  let ?ub = "snd (writeTempFileAtomic (dirname ?c) [7, 8] ?ua)"
  let ?uc = "snd (os_Rename (''cache'', ''tmp4'') (indexBlobPath ?c ''b'') ?ub)"
  let ?ud = "\<lparr>fs = (\<lambda>d. None)(''cache'' \<mapsto>
                  [(''tmp4'', \<lparr>content = [7, 8], modtime = 5\<rparr>),
                   (''b.sndx'', \<lparr>content = [9], modtime = 5\<rparr>)]),
           clock = 5, rand = 5, script = [],
           trace = [Sys (Stat (''cache'', ''b.sndx'')) (Some ENOENT),
                    Sys (CreateTemp ''cache'' ''tmp'') None,
                    Sys (Write (''cache'', ''tmp4'') [7, 8]) None,
                    Sys (Close (''cache'', ''tmp4'')) None,
                    Sys (Rename (''cache'', ''tmp4'') (''cache'', ''b.sndx'')) (Some EACCES),
                    Sys (Stat (''cache'', ''b.sndx'')) None]\<rparr>"
  have 1: "fst (env_step ?w) = None \<and> lookup (indexBlobPath ?c ''a'') (fs (snd (env_step ?w))) \<noteq> None"
    by (simp add: run_defs)
  have 2: "fs (snd (env_step ?w)) ''cache'' = Some [(''a.sndx'', \<lparr>content = [1], modtime = 0\<rparr>)]"
    by (simp add: run_defs)
  have 3: "hasIndexBlobID ?c ''b'' ?u = (Inr False, ?ua)
      \<and> writeTempFileAtomic (dirname ?c) [7, 8] ?ua = (Inr (''cache'', ''tmp4''), ?ub)
      \<and> os_Rename (''cache'', ''tmp4'') (indexBlobPath ?c ''b'') ?ub = (Some (OsErr EACCES), ?uc)
      \<and> hasIndexBlobID ?c ''b'' ?uc = (Inr True, ?ud)"
    by (simp add: run_defs)
  have 4: "no_racers ?ub"
    by (simp add: run_defs no_racers_def)
  have 5: "fs ?ud ''cache''
       = Some [(''tmp4'', \<lparr>content = [7, 8], modtime = 5\<rparr>), (''b.sndx'', \<lparr>content = [9], modtime = 5\<rparr>)]"
    by simp
  note T = addContentToCache_destination_present
  note U = T [of ?u ?c "''b''" "[7, 8]", THEN conjunct2, THEN conjunct2, rule_format, OF 3]
  from U [THEN conjunct2, THEN conjunct2, THEN conjunct2, THEN conjunct2, rule_format, OF 4] 5
  have 6: "fs ?ub ''cache''
       = Some [(''tmp4'', \<lparr>content = [7, 8], modtime = 5\<rparr>), (''b.sndx'', \<lparr>content = [9], modtime = 5\<rparr>)]"
    by simp
  from T [of ?w ?c "''a''" "[7, 8]", THEN conjunct1, rule_format, OF 1] 2
       U [THEN conjunct1] 6
  show ?thesis
    by simp
qed

text \<open>
  A run that the first sentence of C7 does not cover.  Another process publishes the
  file of the identifier while this call writes its temporary file, and the rename
  fails.  The second existence check finds the destination, the call returns no error,
  and the temporary file \<open>tmp3\<close> that the call created is in the directory at the
  return, next to the destination: nothing has discarded it.
\<close>

theorem addContentToCache_temp_file_left:
  "fst (addContentToCache \<lparr>dirname = ''cache'', timeNow = (\<lambda>w. 0), v1PerContentOverhead = 0\<rparr> ''a'' [7, 8]
         \<lparr>fs = (\<lambda>d. None)(''cache'' \<mapsto> []), clock = 5, rand = 3,
          script = [([], None), ([], None), ([Publish (''cache'', ''a.sndx'') [9]], None), ([], None),
                    ([], Some EACCES)],
          trace = []\<rparr>) = None
   \<and> fs (snd (addContentToCache \<lparr>dirname = ''cache'', timeNow = (\<lambda>w. 0), v1PerContentOverhead = 0\<rparr> ''a'' [7, 8]
         \<lparr>fs = (\<lambda>d. None)(''cache'' \<mapsto> []), clock = 5, rand = 3,
          script = [([], None), ([], None), ([Publish (''cache'', ''a.sndx'') [9]], None), ([], None),
                    ([], Some EACCES)],
          trace = []\<rparr>)) ''cache''
     = Some [(''tmp3'', \<lparr>content = [7, 8], modtime = 5\<rparr>), (''a.sndx'', \<lparr>content = [9], modtime = 5\<rparr>)]
   \<and> trace (snd (addContentToCache \<lparr>dirname = ''cache'', timeNow = (\<lambda>w. 0), v1PerContentOverhead = 0\<rparr> ''a'' [7, 8]
         \<lparr>fs = (\<lambda>d. None)(''cache'' \<mapsto> []), clock = 5, rand = 3,
          script = [([], None), ([], None), ([Publish (''cache'', ''a.sndx'') [9]], None), ([], None),
                    ([], Some EACCES)],
          trace = []\<rparr>))
     = [Sys (Stat (''cache'', ''a.sndx'')) (Some ENOENT),
        Sys (CreateTemp ''cache'' ''tmp'') None,
        Sys (Write (''cache'', ''tmp3'') [7, 8]) None,
        Sys (Close (''cache'', ''tmp3'')) None,
        Sys (Rename (''cache'', ''tmp3'') (''cache'', ''a.sndx'')) (Some EACCES),
        Sys (Stat (''cache'', ''a.sndx'')) None]"
  by (simp add: run_defs)

section \<open>Choosing the block cache\<close>

text \<open>
  C6.  \<open>newBlockCache\<close> returns the null cache exactly when the size limit is zero or
  the cache directory is the empty string; it then wraps the storage, runs no sweep
  and starts no task.  Otherwise it returns a disk cache built from the options (the
  secret copied, the list duration in nanoseconds, the channel open), and the state
  of the process is the one after one sweep of that cache, with the periodic sweep of
  that cache started after it as the only new task.
\<close>

theorem newBlockCache_variants:
  "((\<exists>s. fst (newBlockCache sweepDirectory st' caching p) = NullBlockCache s)
      \<longleftrightarrow> MaxCacheSizeBytes caching = 0 \<or> CacheDirectory caching = '''')
   \<and> (MaxCacheSizeBytes caching = 0 \<or> CacheDirectory caching = '''' \<longrightarrow>
        newBlockCache sweepDirectory st' caching p = (NullBlockCache st', p))
   \<and> (\<not> (MaxCacheSizeBytes caching = 0 \<or> CacheDirectory caching = '''') \<longrightarrow>
        (\<exists>c. newBlockCache sweepDirectory st' caching p
               = (DiskBlockCache c, go (SweepDirectoryPeriodically c) (sweepDirectory c p))
           \<and> st c = st' \<and> directory c = CacheDirectory caching
           \<and> maxSizeBytes c = MaxCacheSizeBytes caching
           \<and> hmacSecret c = HMACSecret caching
           \<and> listCacheDuration c = MaxListCacheDurationSec caching * 1000000000
           \<and> \<not> closed c
           \<and> tasks (snd (newBlockCache sweepDirectory st' caching p))
               = tasks (sweepDirectory c p) @ [SweepDirectoryPeriodically c]))"
  by (auto simp: newBlockCache_def Let_def go_def time_Second_def)

theorem newBlockCache_variants_witness:
  "newBlockCache (\<lambda>c p. p\<lparr>disk := filter (\<lambda>n. n \<le> unat (maxSizeBytes c)) (disk p)\<rparr>) (0::nat)
      \<lparr>CacheDirectory = ''cache'', MaxCacheSizeBytes = 0, MaxListCacheDurationSec = 30, HMACSecret = [1]\<rparr>
      \<lparr>disk = [5, 50], tasks = []\<rparr>
     = (NullBlockCache 0, \<lparr>disk = [5, 50], tasks = []\<rparr>)
   \<and> newBlockCache (\<lambda>c p. p\<lparr>disk := filter (\<lambda>n. n \<le> unat (maxSizeBytes c)) (disk p)\<rparr>) (0::nat)
      \<lparr>CacheDirectory = '''', MaxCacheSizeBytes = 10, MaxListCacheDurationSec = 30, HMACSecret = [1]\<rparr>
      \<lparr>disk = [5, 50], tasks = []\<rparr>
     = (NullBlockCache 0, \<lparr>disk = [5, 50], tasks = []\<rparr>)
   \<and> snd (newBlockCache (\<lambda>c p. p\<lparr>disk := filter (\<lambda>n. n \<le> unat (maxSizeBytes c)) (disk p)\<rparr>) (0::nat)
      \<lparr>CacheDirectory = ''cache'', MaxCacheSizeBytes = 10, MaxListCacheDurationSec = 30, HMACSecret = [1]\<rparr>
      \<lparr>disk = [5, 50], tasks = []\<rparr>)
     = \<lparr>disk = [5],
        tasks = [SweepDirectoryPeriodically
                   \<lparr>st = 0, directory = ''cache'', maxSizeBytes = 10, hmacSecret = [1],
                    listCacheDuration = 30000000000, closed = False\<rparr>]\<rparr>"
proof -
  let ?sweep = "\<lambda>(c :: nat diskBlockCache) (p :: (nat, nat list) process).
      p\<lparr>disk := filter (\<lambda>n. n \<le> unat (maxSizeBytes c)) (disk p)\<rparr>"
  let ?p = "\<lparr>disk = [5, 50], tasks = []\<rparr> :: (nat, nat list) process"
  let ?a = "\<lparr>CacheDirectory = ''cache'', MaxCacheSizeBytes = 0, MaxListCacheDurationSec = 30, HMACSecret = [1]\<rparr>"
  let ?b = "\<lparr>CacheDirectory = '''', MaxCacheSizeBytes = 10, MaxListCacheDurationSec = 30, HMACSecret = [1]\<rparr>"
  let ?d = "\<lparr>CacheDirectory = ''cache'', MaxCacheSizeBytes = 10, MaxListCacheDurationSec = 30, HMACSecret = [1]\<rparr>"
  have a: "MaxCacheSizeBytes ?a = 0 \<or> CacheDirectory ?a = ''''"
    by simp
  have b: "MaxCacheSizeBytes ?b = 0 \<or> CacheDirectory ?b = ''''"
    by simp
  have d: "\<not> (MaxCacheSizeBytes ?d = 0 \<or> CacheDirectory ?d = '''')"
    by simp
  note T = newBlockCache_variants
  from T [of ?sweep 0 ?d ?p, THEN conjunct2, THEN conjunct2, rule_format, OF d]
  obtain c where c: "newBlockCache ?sweep 0 ?d ?p
               = (DiskBlockCache c, go (SweepDirectoryPeriodically c) (?sweep c ?p))"
    "st c = 0" "directory c = CacheDirectory ?d" "maxSizeBytes c = MaxCacheSizeBytes ?d"
    "hmacSecret c = HMACSecret ?d" "listCacheDuration c = MaxListCacheDurationSec ?d * 1000000000"
    "\<not> closed c"
    by (elim exE conjE)
  have "c = \<lparr>st = 0, directory = ''cache'', maxSizeBytes = 10, hmacSecret = [1],
                    listCacheDuration = 30000000000, closed = False\<rparr>"
    using c(2-7) by (cases c) simp
  with c(1) have 3: "snd (newBlockCache ?sweep 0 ?d ?p)
     = \<lparr>disk = [5],
        tasks = [SweepDirectoryPeriodically
                   \<lparr>st = 0, directory = ''cache'', maxSizeBytes = 10, hmacSecret = [1],
                    listCacheDuration = 30000000000, closed = False\<rparr>]\<rparr>"
    by (simp add: go_def)
  from T [of ?sweep 0 ?a ?p, THEN conjunct2, THEN conjunct1, rule_format, OF a]
       T [of ?sweep 0 ?b ?p, THEN conjunct2, THEN conjunct1, rule_format, OF b] 3
  show ?thesis
    by simp
qed

end
